theory Spec2Isabelle
  imports Complex_Main "HOL-Library.Log_Nat"
begin

section \<open>EnvManager: schema-driven parsing of an environment source\<close>

text \<open>
  The development embeds \<^verbatim>\<open>src/types.ts\<close> and the class \<^verbatim>\<open>EnvManager\<close>
  (\<^verbatim>\<open>src/EnvManager.ts\<close>). Conventions of the embedding:
  \<^item> a JavaScript string is a \<open>string\<close>: a list of code units below 256;
  \<^item> a plain object is the list of its own enumerable properties, in the order in which
    \<^verbatim>\<open>for ... in\<close>, \<^verbatim>\<open>Object.keys\<close> and the spread operator visit them, together with
    its prototype, which is \<^verbatim>\<open>Object.prototype\<close> or \<^verbatim>\<open>null\<close>; a property is read
    through the prototype chain, so a name that \<^verbatim>\<open>Object.prototype\<close> defines
    (\<^verbatim>\<open>toString\<close>, \<^verbatim>\<open>constructor\<close>, \<^verbatim>\<open>__proto__\<close> and the like) is found on an object
    that has no such property of its own, and an assignment to \<^verbatim>\<open>__proto__\<close> reaches the
    setter of \<^verbatim>\<open>Object.prototype\<close>; \<^verbatim>\<open>Object.prototype\<close> is as the language defines it
    (nothing was added to it);
  \<^item> the raw source has the type \<^verbatim>\<open>{[key: string]: string | undefined}\<close>: a property of
    its own is a string or \<^verbatim>\<open>undefined\<close>;
  \<^item> a validator is a total function without effects, of the type its declaration gives it;
  \<^item> \<^verbatim>\<open>throw new Error(message)\<close> is the result \<open>Inl (Error message)\<close>;
  \<^item> a number is a binary64 value: \<^verbatim>\<open>NaN\<close>, an infinity, the negative zero, or the
    rational it stands for.
\<close>

subsection \<open>Values\<close>

datatype number = NaN | PosInfinity | NegInfinity | NegZero | Finite rat

datatype jsvalue = Undefined | Str string | Num number | Bool bool

text \<open>The result of a validator: \<^verbatim>\<open>boolean | string\<close>.\<close>

datatype vresult = RBool bool | RString string

datatype error = Error string

subsection \<open>Plain objects\<close>

type_synonym 'v object = "(string \<times> 'v) list"

definition isDecimalDigit :: "char \<Rightarrow> bool" where
  "isDecimalDigit c = (c \<in> set ''0123456789'')"

definition digitValue :: "char \<Rightarrow> int" where
  "digitValue c =
     (if c \<in> set ''0123456789'' then of_char c - 48
      else if c \<in> set ''abcdef'' then of_char c - 87
      else of_char c - 55)"

text \<open>The value of a digit string in a base, most significant digit first.\<close>

definition digitsValue :: "int \<Rightarrow> string \<Rightarrow> int" where
  "digitsValue base ds = foldl (\<lambda>acc c. acc * base + digitValue c) 0 ds"

text \<open>
  An array index is a canonical numeric string of an integer below \<open>2^32 - 1\<close>. Such keys
  are enumerated first, in ascending numeric order; every other string key follows in
  the order of its creation.
\<close>

definition arrayIndex :: "string \<Rightarrow> int option" where
  "arrayIndex k =
     (if k = [] \<or> \<not> list_all isDecimalDigit k \<or> (1 < length k \<and> hd k = CHR ''0'') then None
      else if digitsValue 10 k < 4294967295 then Some (digitsValue 10 k) else None)"

fun insertIndex :: "int \<Rightarrow> string \<Rightarrow> 'v \<Rightarrow> 'v object \<Rightarrow> 'v object" where
  "insertIndex n k v [] = [(k, v)]"
| "insertIndex n k v ((k', v') # ps) =
     (case arrayIndex k' of
        Some n' \<Rightarrow> if n' < n then (k', v') # insertIndex n k v ps else (k, v) # (k', v') # ps
      | None \<Rightarrow> (k, v) # (k', v') # ps)"

text \<open>
  The own property \<open>k\<close> is defined with the value \<open>v\<close>: an existing property keeps its
  place, a new one is created.
\<close>

definition put :: "'v object \<Rightarrow> string \<Rightarrow> 'v \<Rightarrow> 'v object" where
  "put ob k v =
     (if k \<in> fst ` set ob then map (\<lambda>(k', v'). if k' = k then (k', v) else (k', v')) ob
      else case arrayIndex k of
             Some n \<Rightarrow> insertIndex n k v ob
           | None \<Rightarrow> ob @ [(k, v)])"

text \<open>The own property \<open>k\<close> of an object, \<open>None\<close> when it has none.\<close>

definition get :: "'v object \<Rightarrow> string \<Rightarrow> 'v option" where
  "get ob k = map_of ob k"

text \<open>
  The prototype of an object: \<^verbatim>\<open>Object.prototype\<close> for an object literal, a spread or the
  result of \<^verbatim>\<open>JSON.parse\<close>; \<^verbatim>\<open>null\<close> for \<^verbatim>\<open>Object.create(null)\<close>.
\<close>

datatype prototype = ObjectPrototype | NullPrototype

text \<open>The names of the properties of \<^verbatim>\<open>Object.prototype\<close>.\<close>

definition objectPrototypeNames :: "string list" where
  "objectPrototypeNames =
     [''constructor'', ''__defineGetter__'', ''__defineSetter__'', ''hasOwnProperty'',
      ''__lookupGetter__'', ''__lookupSetter__'', ''isPrototypeOf'', ''propertyIsEnumerable'',
      ''toString'', ''valueOf'', ''__proto__'', ''toLocaleString'']"

text \<open>
  What reading a property of a source or of a scope table gives when it is not
  \<^verbatim>\<open>undefined\<close>: a string, or the member of \<^verbatim>\<open>Object.prototype\<close> of that name (a
  function, or for \<^verbatim>\<open>__proto__\<close> the object \<^verbatim>\<open>Object.prototype\<close> itself).
\<close>

datatype rawValue = RawString string | Member string

text \<open>
  The text of a member of \<^verbatim>\<open>Object.prototype\<close>, as Node.js prints a built-in function
  and an object.
\<close>

definition memberText :: "string \<Rightarrow> string" where
  "memberText n =
     (if n = ''__proto__'' then ''[object Object]''
      else if n = ''constructor'' then ''function Object() { [native code] }''
      else ''function '' @ n @ ''() { [native code] }'')"

text \<open>\<^verbatim>\<open>String(v)\<close>, and \<open>v\<close> in a template literal.\<close>

fun ToString :: "rawValue \<Rightarrow> string" where
  "ToString (RawString s) = s"
| "ToString (Member n) = memberText n"

text \<open>What the prototype gives for a name the object has no property of.\<close>

definition inherited :: "prototype \<Rightarrow> string \<Rightarrow> rawValue option" where
  "inherited p k =
     (if p = ObjectPrototype \<and> k \<in> set objectPrototypeNames then Some (Member k) else None)"

text \<open>\<^verbatim>\<open>ob[k]\<close> on an object whose own properties are strings; \<open>None\<close> is \<^verbatim>\<open>undefined\<close>.\<close>

definition readProperty :: "prototype \<Rightarrow> string object \<Rightarrow> string \<Rightarrow> rawValue option" where
  "readProperty p ob k = (case get ob k of Some s \<Rightarrow> Some (RawString s) | None \<Rightarrow> inherited p k)"

text \<open>
  \<^verbatim>\<open>ob[k] = v\<close> for a value \<open>v\<close> that is not an object. On an object that inherits from
  \<^verbatim>\<open>Object.prototype\<close> and has no property \<^verbatim>\<open>__proto__\<close> of its own, the assignment to
  \<^verbatim>\<open>__proto__\<close> calls the setter of \<^verbatim>\<open>Object.prototype\<close>, which ignores such a value:
  no property is created. Every other assignment creates or rebinds the own property.
\<close>

definition assign :: "prototype \<Rightarrow> 'v object \<Rightarrow> string \<Rightarrow> 'v \<Rightarrow> 'v object" where
  "assign p ob k v =
     (if p = ObjectPrototype \<and> k = ''__proto__'' \<and> k \<notin> fst ` set ob then ob else put ob k v)"

definition Object_keys :: "'v object \<Rightarrow> string list" where
  "Object_keys ob = map fst ob"

text \<open>\<^verbatim>\<open>{...a, ...b}\<close>: a new object that receives the properties of \<open>a\<close>, then those of \<open>b\<close>.\<close>

definition spread :: "'v object \<Rightarrow> 'v object \<Rightarrow> 'v object" where
  "spread a b = foldl (\<lambda>ob (k, v). put ob k v) (foldl (\<lambda>ob (k, v). put ob k v) [] a) b"

text \<open>\<^verbatim>\<open>xs.join(sep)\<close> on a list of strings.\<close>

fun join :: "string \<Rightarrow> string list \<Rightarrow> string" where
  "join sep [] = []"
| "join sep [x] = x"
| "join sep (x # y # ys) = x @ sep @ join sep (y # ys)"

subsection \<open>The conversion of a string to a number\<close>

text \<open>
  \<^verbatim>\<open>Number(s)\<close> on a string follows the grammar \<^verbatim>\<open>StringNumericLiteral\<close> of ECMAScript:
  white space around the literal is dropped; nothing is left gives \<open>0\<close>; the literal is
  a binary, octal or hexadecimal integer without a sign, or a decimal literal with an
  optional sign, which is \<^verbatim>\<open>Infinity\<close> or digits with an optional fraction and an
  optional exponent. Every other string gives \<^verbatim>\<open>NaN\<close>. The mathematical value of the
  literal is rounded to the nearest binary64 value, ties to the even significand: a value
  too large becomes an infinity, one too small a zero.
\<close>

text \<open>\<open>2^e\<close> as a rational.\<close>

definition pow2 :: "int \<Rightarrow> rat" where
  "pow2 e = (if 0 \<le> e then 2 ^ nat e else 1 / 2 ^ nat (- e))"

text \<open>The integer \<open>e\<close> with \<open>2^e \<le> q < 2^(e+1)\<close>, for a positive \<open>q\<close>.\<close>

definition floorLog2 :: "rat \<Rightarrow> int" where
  "floorLog2 q =
     (case quotient_of q of
        (a, b) \<Rightarrow> (let k = bitlen a - bitlen b in if pow2 k \<le> q then k else k - 1))"

definition roundHalfEven :: "rat \<Rightarrow> int" where
  "roundHalfEven x =
     (let f = \<lfloor>x\<rfloor>; d = x - of_int f
      in if d < 1 / 2 then f
         else if 1 / 2 < d then f + 1
         else if even f then f else f + 1)"

text \<open>
  The binary64 value nearest to a magnitude \<open>q \<ge> 0\<close> with a sign. The significand has 53
  bits; the exponent of the leading bit is at most 1023, and below \<open>-1022\<close> the values are
  the multiples of \<open>2^-1074\<close>.
\<close>

definition binary64 :: "bool \<Rightarrow> rat \<Rightarrow> number" where
  "binary64 negative q =
     (if q = 0 then (if negative then NegZero else Finite 0)
      else if 1023 < floorLog2 q then (if negative then NegInfinity else PosInfinity)
      else (let e = max (floorLog2 q) (- 1022);
                n = roundHalfEven (q / pow2 (e - 52))
            in if e = 1023 \<and> n = 9007199254740992
               then (if negative then NegInfinity else PosInfinity)
               else if n = 0 then (if negative then NegZero else Finite 0)
               else Finite ((if negative then - 1 else 1) * of_int n * pow2 (e - 52))))"

definition isStrWhiteSpaceChar :: "char \<Rightarrow> bool" where
  "isStrWhiteSpaceChar c =
     (c \<in> set [CHR 0x09, CHR 0x0A, CHR 0x0B, CHR 0x0C, CHR 0x0D, CHR 0x20, CHR 0xA0])"

definition trim :: "string \<Rightarrow> string" where
  "trim s = rev (dropWhile isStrWhiteSpaceChar (rev (dropWhile isStrWhiteSpaceChar s)))"

definition isDigitOf :: "int \<Rightarrow> char \<Rightarrow> bool" where
  "isDigitOf base c =
     (if base = 2 then c \<in> set ''01''
      else if base = 8 then c \<in> set ''01234567''
      else if base = 10 then c \<in> set ''0123456789''
      else c \<in> set ''0123456789abcdefABCDEF'')"

text \<open>\<^verbatim>\<open>NonDecimalIntegerLiteral\<close> after its two-character prefix.\<close>

definition nonDecimalLiteral :: "int \<Rightarrow> string \<Rightarrow> number" where
  "nonDecimalLiteral base ds =
     (if ds \<noteq> [] \<and> list_all (isDigitOf base) ds
      then binary64 False (of_int (digitsValue base ds))
      else NaN)"

text \<open>\<^verbatim>\<open>ExponentPart\<close>, or nothing: the exponent, \<open>None\<close> when the text is neither.\<close>

definition exponentPart :: "string \<Rightarrow> int option" where
  "exponentPart s =
     (case s of
        [] \<Rightarrow> Some 0
      | c # r \<Rightarrow>
          if c = CHR ''e'' \<or> c = CHR ''E'' then
            (case r of
               [] \<Rightarrow> None
             | d # ds \<Rightarrow>
                 if d = CHR ''+'' then
                   (if ds \<noteq> [] \<and> list_all isDecimalDigit ds then Some (digitsValue 10 ds)
                    else None)
                 else if d = CHR ''-'' then
                   (if ds \<noteq> [] \<and> list_all isDecimalDigit ds then Some (- digitsValue 10 ds)
                    else None)
                 else if list_all isDecimalDigit r then Some (digitsValue 10 r)
                 else None)
          else None)"

text \<open>\<open>m * 10^e\<close> as a rational.\<close>

definition scale10 :: "int \<Rightarrow> int \<Rightarrow> rat" where
  "scale10 m e =
     (if 0 \<le> e then of_int m * 10 ^ nat e else of_int m / 10 ^ nat (- e))"

text \<open>
  \<^verbatim>\<open>StrUnsignedDecimalLiteral\<close>: its mathematical value, \<open>None\<close> when the text is not
  one.
\<close>

definition unsignedDecimalLiteral :: "string \<Rightarrow> rat option" where
  "unsignedDecimalLiteral s =
     (let ip = takeWhile isDecimalDigit s;
          r1 = dropWhile isDecimalDigit s;
          fp = (case r1 of [] \<Rightarrow> [] | c # r \<Rightarrow> if c = CHR ''.'' then takeWhile isDecimalDigit r else []);
          r2 = (case r1 of [] \<Rightarrow> [] | c # r \<Rightarrow> if c = CHR ''.'' then dropWhile isDecimalDigit r else r1)
      in if ip = [] \<and> fp = [] then None
         else (case exponentPart r2 of
                 None \<Rightarrow> None
               | Some e \<Rightarrow> Some (scale10 (digitsValue 10 (ip @ fp)) (e - int (length fp)))))"

definition decimalLiteral :: "string \<Rightarrow> number" where
  "decimalLiteral s =
     (case s of
        [] \<Rightarrow> NaN
      | c # r \<Rightarrow>
          if c = CHR ''+'' then
            (if r = ''Infinity'' then PosInfinity
             else case unsignedDecimalLiteral r of None \<Rightarrow> NaN | Some q \<Rightarrow> binary64 False q)
          else if c = CHR ''-'' then
            (if r = ''Infinity'' then NegInfinity
             else case unsignedDecimalLiteral r of None \<Rightarrow> NaN | Some q \<Rightarrow> binary64 True q)
          else
            (if s = ''Infinity'' then PosInfinity
             else case unsignedDecimalLiteral s of None \<Rightarrow> NaN | Some q \<Rightarrow> binary64 False q))"

definition Number :: "string \<Rightarrow> number" where
  "Number s =
     (let t = trim s
      in if t = [] then Finite 0
         else if take 2 t \<in> set [''0x'', ''0X''] then nonDecimalLiteral 16 (drop 2 t)
         else if take 2 t \<in> set [''0o'', ''0O''] then nonDecimalLiteral 8 (drop 2 t)
         else if take 2 t \<in> set [''0b'', ''0B''] then nonDecimalLiteral 2 (drop 2 t)
         else decimalLiteral t)"

definition isNaN :: "number \<Rightarrow> bool" where
  "isNaN x = (x = NaN)"

subsection \<open>Types (\<^verbatim>\<open>src/types.ts\<close>)\<close>

record EnvManagerConfig =
  enableScopes :: "bool option"
  scopes :: "string object option"

text \<open>
  \<^verbatim>\<open>EnvDeclaration\<close> is a union of three shapes, told apart by \<^verbatim>\<open>type\<close>; the
  validator of each takes the primitive type of its kind. An optional field that is left
  out is \<open>None\<close>.
\<close>

datatype EnvDeclaration =
    StringDecl (validatorString: "(string \<Rightarrow> vresult) option") (required: "bool option")
  | NumberDecl (validatorNumber: "(number \<Rightarrow> vresult) option") (required: "bool option")
  | BooleanDecl (validatorBoolean: "(bool \<Rightarrow> vresult) option") (required: "bool option")

type_synonym EnvSchema = "EnvDeclaration object"

type_synonym ParsedEnv = "jsvalue object"

text \<open>
  The raw source: an own property is bound to a string (\<open>Some (Some s)\<close>) or to
  \<^verbatim>\<open>undefined\<close> (\<open>Some None\<close>).
\<close>

record RawEnvSource =
  own :: "string \<rightharpoonup> string option"
  proto :: prototype

text \<open>\<^verbatim>\<open>source[k]\<close>; \<open>None\<close> is \<^verbatim>\<open>undefined\<close>.\<close>

definition readSource :: "RawEnvSource \<Rightarrow> string \<Rightarrow> rawValue option" where
  "readSource source k =
     (case own source k of
        Some v \<Rightarrow> map_option RawString v
      | None \<Rightarrow> inherited (proto source) k)"

text \<open>The object whose own properties are the given strings, as an object literal makes it.\<close>

definition plainObject :: "(string \<times> string) list \<Rightarrow> RawEnvSource" where
  "plainObject kvs = \<lparr>own = map_of (map (\<lambda>(k, v). (k, Some v)) kvs), proto = ObjectPrototype\<rparr>"

subsection \<open>The class \<^verbatim>\<open>EnvManager\<close>\<close>

record EnvManager =
  this_source :: RawEnvSource
  this_env :: ParsedEnv
  this_schema :: EnvSchema
  this_enableScopes :: bool
  this_currentScope :: "string option"
  this_scopes :: "string object"

definition defaultScopes :: "string object" where
  "defaultScopes =
     [(''development'', ''DEV''), (''production'', ''PROD''), (''test'', ''TEST''),
      (''staging'', ''STAGE'')]"

text \<open>
  The messages of the errors thrown. The code throws \<^verbatim>\<open>Error\<close> each time; the kinds are
  told apart by their messages, and are named here as the specification names them.
\<close>

definition InvalidSourceError :: error where
  "InvalidSourceError = Error ''[Env Manager] - Env source is undefined.''"

definition ScopeUndeterminedError :: "string list \<Rightarrow> error" where
  "ScopeUndeterminedError names =
     Error (''[Env Manager] - Scopes enabled but current scope could not be determined from source. Ensure NODE_ENV is set (''
            @ join '' | '' names @ '').'')"

definition MissingVariableError :: "string \<Rightarrow> error" where
  "MissingVariableError rawName =
     Error (''[Env Manager] - Missing required environment variable: '' @ rawName)"

definition InvalidNumberError :: "string \<Rightarrow> error" where
  "InvalidNumberError rawName =
     Error (''[Env Manager] - Environment variable '' @ rawName @ '' is not a valid number.'')"

definition InvalidBooleanError :: "string \<Rightarrow> error" where
  \<open>InvalidBooleanError rawName =
     Error (''[Env Manager] - Environment variable '' @ rawName
            @ '' is not a valid boolean. Use "true", "false", "1", or "0".'')\<close>

definition ValidationError :: "string \<Rightarrow> vresult \<Rightarrow> error" where
  "ValidationError rawName result =
     Error (''[Env Manager] - Environment variable '' @ rawName @ '' failed custom validation. ''
            @ (case result of RString s \<Rightarrow> s | RBool b \<Rightarrow> []))"

text \<open>
  A value that is a string, \<^verbatim>\<open>undefined\<close> or \<^verbatim>\<open>null\<close> is truthy when it is a string that
  is not empty.
\<close>

definition truthy :: "string option \<Rightarrow> bool" where
  "truthy x = (case x of None \<Rightarrow> False | Some s \<Rightarrow> s \<noteq> [])"

text \<open>\<^verbatim>\<open>this.source.NODE_ENV || null\<close>\<close>

definition initCurrentScope :: "RawEnvSource \<Rightarrow> string option" where
  "initCurrentScope source =
     (let v = map_option ToString (readSource source ''NODE_ENV'')
      in if truthy v then v else None)"

text \<open>
  The template literal \<^verbatim>\<open>`${this.scopes[scope]}_`\<close> writes \<^verbatim>\<open>undefined\<close> as the text
  \<^verbatim>\<open>undefined\<close>; it is never empty, so the alternative \<^verbatim>\<open>|| ""\<close> is never taken.
\<close>

definition getPrefixedName :: "EnvManager \<Rightarrow> string \<Rightarrow> string" where
  "getPrefixedName this name =
     (if this_enableScopes this \<and> truthy (this_currentScope this) then
        (case this_currentScope this of
           Some scope \<Rightarrow>
             (let prefix = (case readProperty ObjectPrototype (this_scopes this) scope of
                              None \<Rightarrow> ''undefined''
                            | Some v \<Rightarrow> ToString v) @ ''_''
              in (if prefix = [] then [] else prefix) @ name)
         | None \<Rightarrow> name)
      else name)"

text \<open>
  The block that follows each conversion: the validator, when there is one, is called on
  the parsed value, and every result but \<^verbatim>\<open>true\<close> throws.
\<close>

definition validate :: "string \<Rightarrow> ('a \<Rightarrow> vresult) option \<Rightarrow> 'a \<Rightarrow> error option" where
  "validate rawName validator parsedValue =
     (case validator of
        None \<Rightarrow> None
      | Some f \<Rightarrow>
          (let result = f parsedValue
           in if result \<noteq> RBool True then Some (ValidationError rawName result) else None))"

text \<open>\<^verbatim>\<open>declaration.required ?? true\<close>\<close>

definition isRequired :: "EnvDeclaration \<Rightarrow> bool" where
  "isRequired declaration = (case required declaration of None \<Rightarrow> True | Some b \<Rightarrow> b)"

text \<open>
  The body of the loop of \<^verbatim>\<open>parseEnv\<close>: the value assigned to the key, or the error.
  When the raw value is a member of \<^verbatim>\<open>Object.prototype\<close>, \<^verbatim>\<open>String\<close> gives its text,
  \<^verbatim>\<open>Number\<close> converts that text (the member is an object: it is converted to a
  primitive first, which is its text), and \<^verbatim>\<open>!==\<close> tells it from every string.
\<close>

definition parseKey :: "EnvManager \<Rightarrow> string \<Rightarrow> EnvDeclaration \<Rightarrow> error + jsvalue" where
  "parseKey this key declaration =
     (let rawName = getPrefixedName this key
      in case readSource (this_source this) rawName of
           None \<Rightarrow> if isRequired declaration then Inl (MissingVariableError rawName) else Inr Undefined
         | Some rawValue \<Rightarrow>
             (case declaration of
                StringDecl validator r \<Rightarrow>
                  (let parsedValue = ToString rawValue
                   in case validate rawName validator parsedValue of
                        Some e \<Rightarrow> Inl e
                      | None \<Rightarrow> Inr (Str parsedValue))
              | NumberDecl validator r \<Rightarrow>
                  (let parsedValue = Number (ToString rawValue)
                   in if isNaN parsedValue then Inl (InvalidNumberError rawName)
                      else case validate rawName validator parsedValue of
                             Some e \<Rightarrow> Inl e
                           | None \<Rightarrow> Inr (Num parsedValue))
              | BooleanDecl validator r \<Rightarrow>
                  if rawValue \<noteq> RawString ''true'' \<and> rawValue \<noteq> RawString ''false''
                     \<and> rawValue \<noteq> RawString ''1'' \<and> rawValue \<noteq> RawString ''0''
                  then Inl (InvalidBooleanError rawName)
                  else (let parsedValue = (rawValue = RawString ''true'' \<or> rawValue = RawString ''1'')
                        in case validate rawName validator parsedValue of
                             Some e \<Rightarrow> Inl e
                           | None \<Rightarrow> Inr (Bool parsedValue))))"

text \<open>
  The loop over the keys of the schema; the first error ends it. \<^verbatim>\<open>parsedEnv\<close> is made
  by an object literal, so it inherits from \<^verbatim>\<open>Object.prototype\<close>.
\<close>

fun parseEnv_loop :: "EnvManager \<Rightarrow> ParsedEnv \<Rightarrow> EnvSchema \<Rightarrow> error + ParsedEnv" where
  "parseEnv_loop this parsedEnv [] = Inr parsedEnv"
| "parseEnv_loop this parsedEnv ((key, declaration) # rest) =
     (case parseKey this key declaration of
        Inl e \<Rightarrow> Inl e
      | Inr v \<Rightarrow> parseEnv_loop this (assign ObjectPrototype parsedEnv key v) rest)"

text \<open>\<^verbatim>\<open>Object.freeze\<close> changes no property of the object it returns.\<close>

definition parseEnv :: "EnvManager \<Rightarrow> error + ParsedEnv" where
  "parseEnv this = parseEnv_loop this [] (this_schema this)"

text \<open>The part of the constructor that reads the configuration.\<close>

definition applyConfig :: "EnvManager \<Rightarrow> EnvManagerConfig option \<Rightarrow> error + EnvManager" where
  "applyConfig this config =
     (case config of
        None \<Rightarrow> Inr this
      | Some c \<Rightarrow>
          (let this1 = (case scopes c of
                         None \<Rightarrow> this
                       | Some s \<Rightarrow> this\<lparr>this_scopes := spread (this_scopes this) s\<rparr>)
           in case enableScopes c of
                None \<Rightarrow> Inr this1
              | Some b \<Rightarrow>
                  (let this2 = this1\<lparr>this_enableScopes := b\<rparr>
                   in if this_enableScopes this2 \<and> \<not> truthy (this_currentScope this2)
                      then Inl (ScopeUndeterminedError (Object_keys (this_scopes this2)))
                      else Inr this2)))"

text \<open>The fields of a new instance after \<^verbatim>\<open>this.schema = schema\<close>.\<close>

definition initial :: "EnvSchema \<Rightarrow> RawEnvSource \<Rightarrow> EnvManager" where
  "initial schema src =
     \<lparr>this_source = src, this_env = [], this_schema = schema, this_enableScopes = False,
      this_currentScope = initCurrentScope src, this_scopes = defaultScopes\<rparr>"

text \<open>The constructor; a source that is \<^verbatim>\<open>null\<close> or \<^verbatim>\<open>undefined\<close> is \<open>None\<close>.\<close>

definition EnvManager_new ::
  "EnvSchema \<Rightarrow> RawEnvSource option \<Rightarrow> EnvManagerConfig option \<Rightarrow> error + EnvManager" where
  "EnvManager_new schema source config =
     (case source of
        None \<Rightarrow> Inl InvalidSourceError
      | Some src \<Rightarrow>
          (case applyConfig (initial schema src) config of
             Inl e \<Rightarrow> Inl e
           | Inr this \<Rightarrow>
               (case parseEnv this of
                  Inl e \<Rightarrow> Inl e
                | Inr parsedEnv \<Rightarrow> Inr (this\<lparr>this_env := parsedEnv\<rparr>))))"

definition create ::
  "EnvSchema \<Rightarrow> RawEnvSource option \<Rightarrow> EnvManagerConfig option \<Rightarrow> error + EnvManager" where
  "create schema source config = EnvManager_new schema source config"

definition data :: "EnvManager \<Rightarrow> ParsedEnv" where
  "data this = this_env this"

subsection \<open>The instance and the caller's source in a store\<close>

text \<open>
  The source is an object of the caller, and the instance keeps a reference to it. To say
  what the constructor writes, the objects live in a store: a list of objects, where a
  reference is an index. The constructor reads the source through its reference, creates
  the object \<^verbatim>\<open>parsedEnv\<close>, assigns its properties and freezes it. The schema and the
  configuration are only read; they stay values.
\<close>

record obj =
  props :: "jsvalue object"
  prototypeOf :: prototype
  frozen :: bool

type_synonym heap = "obj list"

type_synonym ref = nat

text \<open>\<^verbatim>\<open>{}\<close>: a new object, behind the objects there are.\<close>

definition alloc :: "heap \<Rightarrow> ref \<times> heap" where
  "alloc h = (length h, h @ [\<lparr>props = [], prototypeOf = ObjectPrototype, frozen = False\<rparr>])"

text \<open>
  \<^verbatim>\<open>ob[k] = v\<close> through a reference. An assignment to a frozen object does not change
  it (the code makes none).
\<close>

definition writeProp :: "heap \<Rightarrow> ref \<Rightarrow> string \<Rightarrow> jsvalue \<Rightarrow> heap" where
  "writeProp h a k v =
     (if a < length h \<and> \<not> frozen (h ! a)
      then h[a := (h ! a)\<lparr>props := assign (prototypeOf (h ! a)) (props (h ! a)) k v\<rparr>]
      else h)"

definition freeze :: "heap \<Rightarrow> ref \<Rightarrow> heap" where
  "freeze h a = (if a < length h then h[a := (h ! a)\<lparr>frozen := True\<rparr>] else h)"

text \<open>
  The source object behind a reference, in the store as it is: its own properties, which
  are strings or \<^verbatim>\<open>undefined\<close>, and its prototype.
\<close>

definition sourceOf :: "obj \<Rightarrow> RawEnvSource" where
  "sourceOf ob =
     \<lparr>own = (\<lambda>k. case get (props ob) k of
                    None \<Rightarrow> None
                  | Some (Str s) \<Rightarrow> Some (Some s)
                  | Some v \<Rightarrow> Some None),
      proto = prototypeOf ob\<rparr>"

definition sourceAt :: "heap \<Rightarrow> ref \<Rightarrow> RawEnvSource" where
  "sourceAt h a =
     (if a < length h then sourceOf (h ! a) else \<lparr>own = Map.empty, proto = NullPrototype\<rparr>)"

text \<open>
  The loop of \<^verbatim>\<open>parseEnv\<close> on the store: \<open>src\<close> is \<^verbatim>\<open>this.source\<close>, \<open>p\<close> is
  \<^verbatim>\<open>parsedEnv\<close>. Each turn reads the source as the store has it then.
\<close>

fun parseEnv_loop_st ::
  "EnvManager \<Rightarrow> ref \<Rightarrow> ref \<Rightarrow> EnvSchema \<Rightarrow> heap \<Rightarrow> (error + unit) \<times> heap" where
  "parseEnv_loop_st this src p [] h = (Inr (), h)"
| "parseEnv_loop_st this src p ((key, declaration) # rest) h =
     (case parseKey (this\<lparr>this_source := sourceAt h src\<rparr>) key declaration of
        Inl e \<Rightarrow> (Inl e, h)
      | Inr v \<Rightarrow> parseEnv_loop_st this src p rest (writeProp h p key v))"

definition parseEnv_st :: "EnvManager \<Rightarrow> ref \<Rightarrow> heap \<Rightarrow> (error + ref) \<times> heap" where
  "parseEnv_st this src h =
     (case alloc h of
        (p, h1) \<Rightarrow>
          (case parseEnv_loop_st this src p (this_schema this) h1 of
             (Inl e, h2) \<Rightarrow> (Inl e, h2)
           | (Inr u, h2) \<Rightarrow> (Inr p, freeze h2 p)))"

text \<open>An instance in the store: its fields, with references for the two objects.\<close>

record Instance =
  inst_fields :: EnvManager
  inst_source :: ref
  inst_env :: ref

definition EnvManager_new_st ::
  "EnvSchema \<Rightarrow> ref option \<Rightarrow> EnvManagerConfig option \<Rightarrow> heap \<Rightarrow> (error + Instance) \<times> heap" where
  "EnvManager_new_st schema source config h =
     (case source of
        None \<Rightarrow> (Inl InvalidSourceError, h)
      | Some src \<Rightarrow>
          (case applyConfig (initial schema (sourceAt h src)) config of
             Inl e \<Rightarrow> (Inl e, h)
           | Inr this \<Rightarrow>
               (case parseEnv_st this src h of
                  (Inl e, h') \<Rightarrow> (Inl e, h')
                | (Inr p, h') \<Rightarrow>
                    (Inr \<lparr>inst_fields = this\<lparr>this_env := props (h' ! p)\<rparr>, inst_source = src, inst_env = p\<rparr>,
                     h'))))"

text \<open>\<^verbatim>\<open>data()\<close> returns the reference \<^verbatim>\<open>this._env\<close>.\<close>

definition data_st :: "Instance \<Rightarrow> heap \<Rightarrow> ref \<times> heap" where
  "data_st this h = (inst_env this, h)"

subsection \<open>The conditions of the specification\<close>

text \<open>Scopes are disabled: no configuration, or \<^verbatim>\<open>enableScopes\<close> left out or false.\<close>

definition scopesDisabled :: "EnvManagerConfig option \<Rightarrow> bool" where
  "scopesDisabled config = (case config of None \<Rightarrow> True | Some c \<Rightarrow> enableScopes c \<noteq> Some True)"

text \<open>
  A raw string is valid for a declaration: it converts to the declared kind, and the
  validator, when there is one, returns \<^verbatim>\<open>true\<close> on the converted value.
\<close>

definition accepts :: "('a \<Rightarrow> vresult) option \<Rightarrow> 'a \<Rightarrow> bool" where
  "accepts validator x = (case validator of None \<Rightarrow> True | Some f \<Rightarrow> f x = RBool True)"

definition validFor :: "EnvDeclaration \<Rightarrow> string \<Rightarrow> bool" where
  "validFor declaration raw =
     (case declaration of
        StringDecl f r \<Rightarrow> accepts f raw
      | NumberDecl f r \<Rightarrow> \<not> isNaN (Number raw) \<and> accepts f (Number raw)
      | BooleanDecl f r \<Rightarrow>
          raw \<in> set [''true'', ''false'', ''1'', ''0''] \<and> accepts f (raw = ''true'' \<or> raw = ''1''))"

text \<open>The value the specification gives a key: by the kind, and undefined when absent.\<close>

definition expectedValue :: "EnvDeclaration \<Rightarrow> string option \<Rightarrow> jsvalue" where
  "expectedValue declaration rawValue =
     (case rawValue of
        None \<Rightarrow> Undefined
      | Some raw \<Rightarrow>
          (case declaration of
             StringDecl f r \<Rightarrow> Str raw
           | NumberDecl f r \<Rightarrow> Num (Number raw)
           | BooleanDecl f r \<Rightarrow> Bool (raw = ''true'' \<or> raw = ''1'')))"

text \<open>
  The string a source holds for a key: the one its own property is bound to. A key is
  absent from the source when there is none.
\<close>

definition ownString :: "RawEnvSource \<Rightarrow> string \<Rightarrow> string option" where
  "ownString src k = (case own src k of Some v \<Rightarrow> v | None \<Rightarrow> None)"

text \<open>Every required key is present with a valid string.\<close>

definition requiredKeysValid :: "EnvSchema \<Rightarrow> RawEnvSource \<Rightarrow> bool" where
  "requiredKeysValid schema src =
     list_all
       (\<lambda>(k, d). isRequired d \<longrightarrow>
                  (case ownString src k of None \<Rightarrow> False | Some raw \<Rightarrow> validFor d raw))
       schema"

text \<open>
  Every key whose name in the source, \<open>name k\<close>, is present there has a valid string, and
  only optional keys are absent.
\<close>

definition keysValidAt :: "(string \<Rightarrow> string) \<Rightarrow> EnvSchema \<Rightarrow> RawEnvSource \<Rightarrow> bool" where
  "keysValidAt name schema src =
     list_all
       (\<lambda>(k, d). case ownString src (name k) of
                   None \<Rightarrow> \<not> isRequired d
                 | Some raw \<Rightarrow> validFor d raw)
       schema"

text \<open>Every key that is present has a valid string, and only optional keys are absent.\<close>

definition presentKeysValid :: "EnvSchema \<Rightarrow> RawEnvSource \<Rightarrow> bool" where
  "presentKeysValid schema src = keysValidAt (\<lambda>k. k) schema src"

text \<open>
  No key of the schema is \<^verbatim>\<open>__proto__\<close>, and the source inherits no property under the name
  of a key that it has no property of.
\<close>

definition ordinaryKeys :: "EnvSchema \<Rightarrow> RawEnvSource \<Rightarrow> bool" where
  "ordinaryKeys schema src =
     list_all
       (\<lambda>(k, d). k \<noteq> ''__proto__'' \<and> (own src k = None \<longrightarrow> inherited (proto src) k = None))
       schema"

text \<open>
  What a validator, when there is one, returns on the parsed, typed value of a raw string.
\<close>

definition validatorResult :: "EnvDeclaration \<Rightarrow> string \<Rightarrow> vresult option" where
  "validatorResult declaration raw =
     (case declaration of
        StringDecl f r \<Rightarrow> map_option (\<lambda>g. g raw) f
      | NumberDecl f r \<Rightarrow> map_option (\<lambda>g. g (Number raw)) f
      | BooleanDecl f r \<Rightarrow> map_option (\<lambda>g. g (raw = ''true'' \<or> raw = ''1'')) f)"

text \<open>A raw string converts to the declared kind.\<close>

definition convertible :: "EnvDeclaration \<Rightarrow> string \<Rightarrow> bool" where
  "convertible declaration raw =
     (case declaration of
        StringDecl f r \<Rightarrow> True
      | NumberDecl f r \<Rightarrow> \<not> isNaN (Number raw)
      | BooleanDecl f r \<Rightarrow> raw \<in> set [''true'', ''false'', ''1'', ''0''])"

text \<open>The keys before the one looked at went through: the loop reaches it.\<close>

definition keysPass :: "EnvManager \<Rightarrow> EnvSchema \<Rightarrow> bool" where
  "keysPass this pre = list_all (\<lambda>(k, d). \<not> isl (parseKey this k d)) pre"

section \<open>Properties\<close>

subsection \<open>Objects\<close>

lemma truthy_simps [simp]: "truthy None = False" "truthy (Some s) = (s \<noteq> [])"
  by (simp_all add: truthy_def)

lemma set_insertIndex: "set (insertIndex n k v ps) = insert (k, v) (set ps)"
  by (induction ps) (auto split: option.splits if_splits)

lemma map_of_insertIndex:
  "k \<notin> fst ` set ps \<Longrightarrow>
   map_of (insertIndex n k v ps) x = (if x = k then Some v else map_of ps x)"
  by (induction ps) (auto split: option.splits)

lemma map_of_replace:
  "map_of (map (\<lambda>(k', v'). if k' = k then (k', v) else (k', v')) ob) x =
     (if x = k then (case map_of ob k of None \<Rightarrow> None | Some u \<Rightarrow> Some v) else map_of ob x)"
  by (induction ob) (auto split: option.splits)

lemma keys_replace:
  "fst ` set (map (\<lambda>(k', v'). if k' = k then (k', v) else (k', v')) ob) = fst ` set ob"
proof -
  have "map fst (map (\<lambda>(k', v'). if k' = k then (k', v) else (k', v')) ob) = map fst ob"
    by (induction ob) auto
  then have "set (map fst (map (\<lambda>(k', v'). if k' = k then (k', v) else (k', v')) ob))
             = set (map fst ob)"
    by simp
  then show ?thesis by (simp only: set_map)
qed

text \<open>An assignment binds the key and leaves every other key as it was.\<close>

lemma map_of_put: "map_of (put ob k v) = (map_of ob)(k \<mapsto> v)"
proof (cases "k \<in> fst ` set ob")
  case True
  then obtain u where "map_of ob k = Some u"
    by (metis map_of_eq_None_iff not_None_eq)
  with True show ?thesis by (auto simp: put_def map_of_replace fun_eq_iff)
next
  case False
  then have none: "map_of ob k = None" by (simp add: map_of_eq_None_iff)
  show ?thesis
  proof (cases "arrayIndex k")
    case None
    have "map_of (ob @ [(k, v)]) x = ((map_of ob)(k \<mapsto> v)) x" for x
      using none by (auto simp: map_add_def split: option.splits)
    with None False show ?thesis by (simp add: put_def fun_eq_iff)
  next
    case (Some n)
    with False show ?thesis by (simp add: put_def fun_eq_iff map_of_insertIndex)
  qed
qed

lemma keys_put: "fst ` set (put ob k v) = insert k (fst ` set ob)"
proof (cases "k \<in> fst ` set ob")
  case True
  then show ?thesis by (simp only: put_def keys_replace if_True) auto
next
  case False
  then show ?thesis
    by (cases "arrayIndex k") (simp_all add: put_def set_insertIndex)
qed

lemma get_put: "get (put ob k v) k' = (if k' = k then Some v else get ob k')"
  by (simp add: get_def map_of_put)

lemma map_of_puts:
  "map_of (foldl (\<lambda>ob (k, v). put ob k v) ob b) = map_of ob ++ map_of (rev b)"
proof (induction b arbitrary: ob)
  case Nil
  then show ?case by simp
next
  case (Cons p b)
  obtain k v where p: "p = (k, v)" by (cases p)
  have "map_of (put ob k v) ++ map_of (rev b) = map_of ob ++ map_of (rev b @ [(k, v)])"
    by (auto simp: map_of_put fun_eq_iff map_add_def split: option.splits)
  with Cons.IH [of "put ob k v"] p show ?case by simp
qed


text \<open>The keys of an object are distinct, so the order of a list of them does not matter.\<close>

lemma map_of_rev_distinct: "distinct (map fst xs) \<Longrightarrow> map_of (rev xs) = map_of xs"
proof (induction xs)
  case Nil
  then show ?case by simp
next
  case (Cons p xs)
  obtain k v where p: "p = (k, v)" by (cases p)
  from Cons.prems p have "map_of xs k = None" by (simp add: map_of_eq_None_iff)
  with Cons p show ?case
    by (auto simp: fun_eq_iff map_add_def split: option.splits)
qed

lemma spread_from_empty: "foldl (\<lambda>ob (k, v). put ob k v) [] defaultScopes = defaultScopes"
  by code_simp

lemma spread_default: "spread defaultScopes user = foldl (\<lambda>ob (k, v). put ob k v) defaultScopes user"
  by (simp add: spread_def spread_from_empty)

lemma get_spread_default:
  "distinct (map fst user) \<Longrightarrow>
   get (spread defaultScopes user) k = (case get user k of Some p \<Rightarrow> Some p | None \<Rightarrow> get defaultScopes k)"
  by (simp add: spread_default get_def map_of_puts map_of_rev_distinct map_add_def
        split: option.splits)


text \<open>An assignment, apart from the one that reaches the setter, defines the property.\<close>

lemma assign_put: "k \<noteq> ''__proto__'' \<Longrightarrow> assign p ob k v = put ob k v"
  by (simp add: assign_def)

lemma get_assign_other: "k' \<noteq> k \<Longrightarrow> get (assign p ob k v) k' = get ob k'"
  by (simp add: assign_def get_put)

lemma get_assign_same: "k \<noteq> ''__proto__'' \<Longrightarrow> get (assign p ob k v) k = Some v"
  by (simp add: assign_put get_put)

lemma keys_assign:
  "''__proto__'' \<notin> fst ` set ob \<Longrightarrow>
   fst ` set (assign ObjectPrototype ob k v) = fst ` set ob \<union> ({k} - {''__proto__''})"
  by (cases "k = ''__proto__''") (auto simp: assign_def keys_put)

subsection \<open>Reading through the prototype\<close>

lemma inherited_ordinary: "k \<notin> set objectPrototypeNames \<Longrightarrow> inherited p k = None"
  by (simp add: inherited_def)

lemma inherited_null: "inherited NullPrototype k = None"
  by (simp add: inherited_def)

lemma readSource_ordinary:
  "k \<notin> set objectPrototypeNames \<Longrightarrow> readSource src k = map_option RawString (ownString src k)"
  by (simp add: readSource_def ownString_def inherited_ordinary split: option.splits)

lemma readSource_own:
  "own src k = None \<longrightarrow> inherited (proto src) k = None \<Longrightarrow>
   readSource src k = map_option RawString (ownString src k)"
  by (simp add: readSource_def ownString_def split: option.splits)

text \<open>
  Reading a key of the source gives \<^verbatim>\<open>undefined\<close> exactly when the source holds no string
  for it and, if the key is not a property of its own, the prototype has none either.
\<close>

lemma readSource_None_iff:
  "readSource src k = None \<longleftrightarrow>
     ownString src k = None
     \<and> (own src k = None \<longrightarrow> proto src = NullPrototype \<or> k \<notin> set objectPrototypeNames)"
  by (cases "proto src") (auto simp: readSource_def ownString_def inherited_def split: option.splits)

lemma readProperty_own: "get ob k = Some s \<Longrightarrow> readProperty p ob k = Some (RawString s)"
  by (simp add: readProperty_def)


lemma ownString_plainObject: "ownString (plainObject kvs) k = map_of kvs k"
  by (induction kvs) (auto simp: ownString_def plainObject_def)

text \<open>The text of a member is no number and none of the four boolean literals.\<close>

lemma NODE_ENV_ordinary: "''NODE_ENV'' \<notin> set objectPrototypeNames"
  by (simp add: objectPrototypeNames_def)


subsection \<open>The loop and the constructor\<close>

lemma parseEnv_loop_append:
  "parseEnv_loop this env (xs @ ys) =
     (case parseEnv_loop this env xs of Inl e \<Rightarrow> Inl e | Inr env' \<Rightarrow> parseEnv_loop this env' ys)"
  by (induction xs arbitrary: env) (auto split: sum.splits)

text \<open>The keys of \<^verbatim>\<open>parsedEnv\<close> are the keys of the schema but \<^verbatim>\<open>__proto__\<close>.\<close>

lemma parseEnv_loop_keys:
  "parseEnv_loop this env schema = Inr env' \<Longrightarrow> ''__proto__'' \<notin> fst ` set env \<Longrightarrow>
   fst ` set env' = fst ` set env \<union> (fst ` set schema - {''__proto__''})"
proof (induction schema arbitrary: env)
  case Nil
  then show ?case by simp
next
  case (Cons p schema)
  obtain k d where p: "p = (k, d)" by (cases p)
  from Cons.prems p obtain v where v: "parseKey this k d = Inr v"
    and rest: "parseEnv_loop this (assign ObjectPrototype env k v) schema = Inr env'"
    by (auto split: sum.splits)
  note keys = keys_assign [OF Cons.prems(2), of k v]
  with Cons.prems(2) have "''__proto__'' \<notin> fst ` set (assign ObjectPrototype env k v)" by auto
  from Cons.IH [OF rest this] keys p show ?case by auto
qed

lemma parseEnv_loop_other:
  "parseEnv_loop this env schema = Inr env' \<Longrightarrow> k \<notin> fst ` set schema \<Longrightarrow> get env' k = get env k"
proof (induction schema arbitrary: env)
  case Nil
  then show ?case by simp
next
  case (Cons p schema)
  obtain k' d where p: "p = (k', d)" by (cases p)
  from Cons.prems p obtain v where v: "parseKey this k' d = Inr v"
    and rest: "parseEnv_loop this (assign ObjectPrototype env k' v) schema = Inr env'"
    by (auto split: sum.splits)
  from Cons.prems p have "k \<notin> fst ` set schema" and "k \<noteq> k'" by auto
  with Cons.IH [OF rest] show ?case by (simp add: get_assign_other)
qed

lemma parseEnv_loop_value:
  "parseEnv_loop this env schema = Inr env' \<Longrightarrow> distinct (map fst schema) \<Longrightarrow>
   (k, d) \<in> set schema \<Longrightarrow> k \<noteq> ''__proto__'' \<Longrightarrow>
   parseKey this k d = Inr (the (get env' k)) \<and> get env' k \<noteq> None"
proof (induction schema arbitrary: env)
  case Nil
  then show ?case by simp
next
  case (Cons p schema)
  obtain k' d' where p: "p = (k', d')" by (cases p)
  from Cons.prems p obtain v where v: "parseKey this k' d' = Inr v"
    and rest: "parseEnv_loop this (assign ObjectPrototype env k' v) schema = Inr env'"
    by (auto split: sum.splits)
  from Cons.prems p have dist: "distinct (map fst schema)" and notin: "k' \<notin> fst ` set schema"
    by auto
  show ?case
  proof (cases "(k, d) \<in> set schema")
    case True
    from Cons.IH [OF rest dist True Cons.prems(4)] show ?thesis .
  next
    case False
    with Cons.prems p have eq: "k = k'" "d = d'" by auto
    from parseEnv_loop_other [OF rest notin] Cons.prems(4) eq have "get env' k' = Some v"
      by (simp add: get_assign_same)
    with v eq show ?thesis by simp
  qed
qed

lemma parseEnv_loop_pass:
  "keysPass this schema \<Longrightarrow> \<exists>env'. parseEnv_loop this env schema = Inr env'"
proof (induction schema arbitrary: env)
  case Nil
  then show ?case by simp
next
  case (Cons p schema)
  obtain k d where p: "p = (k, d)" by (cases p)
  from Cons.prems p obtain v where v: "parseKey this k d = Inr v"
    by (cases "parseKey this k d") (auto simp: keysPass_def)
  from Cons.prems have "keysPass this schema" by (simp add: keysPass_def)
  from Cons.IH [OF this, of "assign ObjectPrototype env k v"] v p show ?case by simp
qed

lemma parseEnv_loop_fail:
  "keysPass this pre \<Longrightarrow> parseKey this k d = Inl e \<Longrightarrow>
   parseEnv_loop this env (pre @ (k, d) # post) = Inl e"
  using parseEnv_loop_pass [of this pre env] by (auto simp: parseEnv_loop_append)

lemma parseEnv_loop_keysPass:
  "parseEnv_loop this env schema = Inr env' \<Longrightarrow> keysPass this schema"
  by (induction schema arbitrary: env) (auto simp: keysPass_def split: sum.splits)

lemma applyConfig_fields:
  "applyConfig t config = Inr this \<Longrightarrow>
   this_schema this = this_schema t \<and> this_source this = this_source t
   \<and> this_currentScope this = this_currentScope t \<and> this_env this = this_env t"
  by (auto simp: applyConfig_def Let_def split: option.splits if_splits)

lemma create_Some:
  "create schema (Some src) config =
     (case applyConfig (initial schema src) config of
        Inl e \<Rightarrow> Inl e
      | Inr this \<Rightarrow>
          (case parseEnv this of
             Inl e \<Rightarrow> Inl e
           | Inr parsedEnv \<Rightarrow> Inr (this\<lparr>this_env := parsedEnv\<rparr>)))"
  by (simp add: create_def EnvManager_new_def)

lemma create_fails_at:
  assumes "applyConfig (initial (pre @ (k, d) # post) src) config = Inr this"
    and "keysPass this pre" and "parseKey this k d = Inl e"
  shows "create (pre @ (k, d) # post) (Some src) config = Inl e"
proof -
  from applyConfig_fields [OF assms(1)] have "this_schema this = pre @ (k, d) # post"
    by (simp add: initial_def)
  with parseEnv_loop_fail [OF assms(2,3)] have "parseEnv this = Inl e"
    by (simp add: parseEnv_def)
  with assms(1) show ?thesis by (simp add: create_Some)
qed

lemma initial_source: "this_source (initial schema src) = src"
  by (simp add: initial_def)

lemma applyConfig_source:
  "applyConfig (initial schema src) config = Inr this \<Longrightarrow> this_source this = src"
  using applyConfig_fields [of "initial schema src" config this] by (simp add: initial_def)

text \<open>Construction succeeds when every key passes, and stores what each key gave.\<close>

lemma create_passes:
  assumes ctor: "applyConfig (initial schema src) config = Inr this"
    and pass: "keysPass this schema"
  shows "\<exists>m. create schema (Some src) config = Inr m
           \<and> fst ` set (data m) = fst ` set schema - {''__proto__''}
           \<and> (distinct (map fst schema) \<longrightarrow>
                (\<forall>(k, d) \<in> set schema. k \<noteq> ''__proto__'' \<longrightarrow>
                   parseKey this k d = Inr (the (get (data m) k)) \<and> get (data m) k \<noteq> None))"
proof -
  from applyConfig_fields [OF ctor] have sch: "this_schema this = schema"
    by (simp add: initial_def)
  from parseEnv_loop_pass [OF pass, of "[]"] obtain env where
    env: "parseEnv_loop this [] schema = Inr env" by blast
  with sch ctor have c: "create schema (Some src) config = Inr (this\<lparr>this_env := env\<rparr>)"
    by (simp add: create_Some parseEnv_def)
  from parseEnv_loop_keys [OF env] have k: "fst ` set env = fst ` set schema - {''__proto__''}"
    by simp
  have v: "parseKey this k d = Inr (the (get env k)) \<and> get env k \<noteq> None"
    if "distinct (map fst schema)" "(k, d) \<in> set schema" "k \<noteq> ''__proto__''" for k d
    by (rule parseEnv_loop_value [OF env that])
  have keys: "fst ` set (data (this\<lparr>this_env := env\<rparr>)) = fst ` set schema - {''__proto__''}"
    using k by (simp add: data_def)
  have vals: "\<forall>(k, d) \<in> set schema. k \<noteq> ''__proto__'' \<longrightarrow>
                 parseKey this k d = Inr (the (get (data (this\<lparr>this_env := env\<rparr>)) k))
                 \<and> get (data (this\<lparr>this_env := env\<rparr>)) k \<noteq> None"
    if "distinct (map fst schema)"
    using v [OF that] by (auto simp: data_def)
  from c keys vals show ?thesis by blast
qed

lemma create_stores:
  assumes ctor: "applyConfig (initial (pre @ (key, d) # post) src) config = Inr this"
    and pre: "keysPass this pre"
    and here: "parseKey this key d = Inr v"
    and post: "keysPass this post"
    and dist: "distinct (map fst (pre @ (key, d) # post))"
    and key: "key \<noteq> ''__proto__''"
  shows "\<exists>m. create (pre @ (key, d) # post) (Some src) config = Inr m
           \<and> get (data m) key = Some v"
proof -
  from pre here post have "keysPass this (pre @ (key, d) # post)" by (simp add: keysPass_def)
  from create_passes [OF ctor this] dist key obtain m where
    m: "create (pre @ (key, d) # post) (Some src) config = Inr m"
    and v: "parseKey this key d = Inr (the (get (data m) key)) \<and> get (data m) key \<noteq> None"
    by auto
  with here have "get (data m) key = Some v" by auto
  with m show ?thesis by blast
qed

subsection \<open>One key\<close>

lemma validate_accepts:
  "validate rawName validator x =
     (if accepts validator x then None
      else Some (ValidationError rawName (the (map_option (\<lambda>g. g x) validator))))"
  by (cases validator) (simp_all add: validate_def accepts_def)

lemma parseKey_absent:
  "readSource (this_source this) (getPrefixedName this key) = None \<Longrightarrow>
   parseKey this key d =
     (if isRequired d then Inl (MissingVariableError (getPrefixedName this key)) else Inr Undefined)"
  by (simp add: parseKey_def)

lemma parseKey_String:
  "readSource (this_source this) (getPrefixedName this key) = Some (RawString raw) \<Longrightarrow>
   parseKey this key (StringDecl f r) =
     (case validate (getPrefixedName this key) f raw of Some e \<Rightarrow> Inl e | None \<Rightarrow> Inr (Str raw))"
  by (simp add: parseKey_def Let_def)

lemma parseKey_Number:
  "readSource (this_source this) (getPrefixedName this key) = Some (RawString raw) \<Longrightarrow>
   parseKey this key (NumberDecl f r) =
     (if isNaN (Number raw) then Inl (InvalidNumberError (getPrefixedName this key))
      else case validate (getPrefixedName this key) f (Number raw) of
             Some e \<Rightarrow> Inl e
           | None \<Rightarrow> Inr (Num (Number raw)))"
  by (simp add: parseKey_def Let_def)

lemma parseKey_Boolean:
  "readSource (this_source this) (getPrefixedName this key) = Some (RawString raw) \<Longrightarrow>
   parseKey this key (BooleanDecl f r) =
     (if raw \<notin> {''true'', ''false'', ''1'', ''0''}
      then Inl (InvalidBooleanError (getPrefixedName this key))
      else case validate (getPrefixedName this key) f (raw = ''true'' \<or> raw = ''1'') of
             Some e \<Rightarrow> Inl e
           | None \<Rightarrow> Inr (Bool (raw = ''true'' \<or> raw = ''1'')))"
  by (auto simp: parseKey_def Let_def split: option.splits)

text \<open>
  A member of \<^verbatim>\<open>Object.prototype\<close> as a raw value: its text is no number, and it is none
  of the four boolean literals.
\<close>

lemma member_text_no_number: "list_all (\<lambda>n. isNaN (Number (memberText n))) objectPrototypeNames"
  by code_simp

lemma parseKey_Member_Boolean:
  "readSource (this_source this) (getPrefixedName this key) = Some (Member n) \<Longrightarrow>
   parseKey this key (BooleanDecl f r) = Inl (InvalidBooleanError (getPrefixedName this key))"
  by (simp add: parseKey_def)

text \<open>The messages of two kinds of error about one key differ.\<close>

lemma ValidationError_neq_InvalidBooleanError: "ValidationError n res \<noteq> InvalidBooleanError n"
  by (simp add: ValidationError_def InvalidBooleanError_def)

lemma ValidationError_neq_InvalidNumberError: "ValidationError n res \<noteq> InvalidNumberError n"
  by (simp add: ValidationError_def InvalidNumberError_def)

lemma isRequired_default: "isRequired d = (required d \<noteq> Some False)"
  by (cases "required d") (auto simp: isRequired_def)

lemma applyConfig_None: "applyConfig t None = Inr t"
  by (simp add: applyConfig_def)

lemma getPrefixedName_initial:
  "getPrefixedName (initial schema src) name = name"
  by (simp add: getPrefixedName_def initial_def split: option.splits)

lemma readSource_plainObject:
  "k \<notin> set objectPrototypeNames \<Longrightarrow>
   readSource (plainObject kvs) k = map_option RawString (map_of kvs k)"
  by (simp add: readSource_ordinary ownString_plainObject)

text \<open>
  C3. A key of kind Boolean whose effective lookup key holds a raw string: the conversion
  accepts the four strings \<^verbatim>\<open>true\<close>, \<^verbatim>\<open>false\<close>, \<^verbatim>\<open>1\<close>, \<^verbatim>\<open>0\<close> and no other. On every other
  string construction fails with the error of an invalid boolean, which names the
  effective lookup key and lists the four literals, and the key gives that error on those
  strings only. \<^verbatim>\<open>true\<close> and \<^verbatim>\<open>1\<close> are parsed to true, \<^verbatim>\<open>false\<close> and \<^verbatim>\<open>0\<close> to false
  (where a validator, if there is one, accepts the parsed value); when the later keys pass
  too, construction succeeds and stores that boolean under the key (the key
  \<^verbatim>\<open>__proto__\<close> apart, which an assignment does not create).
\<close>

theorem boolean_conversion:
  assumes ctor: "applyConfig (initial (pre @ (key, BooleanDecl validator req) # post) src) config
                   = Inr this"
    and pre: "keysPass this pre"
    and raw: "readSource src (getPrefixedName this key) = Some (RawString raw)"
  shows \<open>(raw \<notin> {''true'', ''false'', ''1'', ''0''} \<longrightarrow>
            create (pre @ (key, BooleanDecl validator req) # post) (Some src) config
              = Inl (InvalidBooleanError (getPrefixedName this key)))
       \<and> ((parseKey this key (BooleanDecl validator req)
              = Inl (InvalidBooleanError (getPrefixedName this key)))
            = (raw \<notin> {''true'', ''false'', ''1'', ''0''}))
       \<and> (raw \<in> {''true'', ''1''} \<and> accepts validator True \<longrightarrow>
            parseKey this key (BooleanDecl validator req) = Inr (Bool True))
       \<and> (raw \<in> {''false'', ''0''} \<and> accepts validator False \<longrightarrow>
            parseKey this key (BooleanDecl validator req) = Inr (Bool False))
       \<and> (raw \<in> {''true'', ''false'', ''1'', ''0''} \<and> accepts validator (raw \<in> {''true'', ''1''})
            \<and> keysPass this post \<and> distinct (map fst (pre @ (key, BooleanDecl validator req) # post))
            \<and> key \<noteq> ''__proto__''
          \<longrightarrow> (\<exists>m. create (pre @ (key, BooleanDecl validator req) # post) (Some src) config = Inr m
                   \<and> get (data m) key = Some (Bool (raw \<in> {''true'', ''1''}))))
       \<and> InvalidBooleanError (getPrefixedName this key)
           = Error (''[Env Manager] - Environment variable '' @ getPrefixedName this key
                    @ '' is not a valid boolean. Use "true", "false", "1", or "0".'')\<close>
proof -
  let ?d = "BooleanDecl validator req"
  let ?n = "getPrefixedName this key"
  from applyConfig_source [OF ctor] raw
  have r: "readSource (this_source this) ?n = Some (RawString raw)" by simp
  note pk = parseKey_Boolean [OF r, of validator req]
  have 1: "raw \<notin> {''true'', ''false'', ''1'', ''0''} \<longrightarrow>
            create (pre @ (key, ?d) # post) (Some src) config = Inl (InvalidBooleanError ?n)"
    using create_fails_at [OF ctor pre, of "InvalidBooleanError ?n"] pk by simp
  have 2: "(parseKey this key ?d = Inl (InvalidBooleanError ?n))
            = (raw \<notin> {''true'', ''false'', ''1'', ''0''})"
    using pk by (auto simp: validate_accepts ValidationError_neq_InvalidBooleanError)
  have 3: "raw \<in> {''true'', ''1''} \<and> accepts validator True \<longrightarrow> parseKey this key ?d = Inr (Bool True)"
    using pk by (auto simp: validate_accepts)
  have 4: "raw \<in> {''false'', ''0''} \<and> accepts validator False \<longrightarrow> parseKey this key ?d = Inr (Bool False)"
    using pk by (auto simp: validate_accepts)
  have 5: "\<exists>m. create (pre @ (key, ?d) # post) (Some src) config = Inr m
             \<and> get (data m) key = Some (Bool (raw \<in> {''true'', ''1''}))"
    if four: "raw \<in> {''true'', ''false'', ''1'', ''0''}"
      and acc: "accepts validator (raw \<in> {''true'', ''1''})"
      and post: "keysPass this post"
      and dist: "distinct (map fst (pre @ (key, ?d) # post))"
      and key: "key \<noteq> ''__proto__''"
  proof -
    from four acc pk have here: "parseKey this key ?d = Inr (Bool (raw \<in> {''true'', ''1''}))"
      by (auto simp: validate_accepts)
    from create_stores [OF ctor pre here post dist key] show ?thesis .
  qed
  have 6: \<open>InvalidBooleanError ?n
             = Error (''[Env Manager] - Environment variable '' @ ?n
                      @ '' is not a valid boolean. Use "true", "false", "1", or "0".'')\<close>
    by (simp add: InvalidBooleanError_def)
  from 1 2 3 4 5 6 show ?thesis by blast
qed

theorem boolean_conversion_witness:
  "create [(''DEBUG'', BooleanDecl None None)] (Some (plainObject [(''DEBUG'', ''TRUE'')])) None
     = Inl (InvalidBooleanError ''DEBUG'')
   \<and> (\<exists>m. create [(''DEBUG'', BooleanDecl None None)] (Some (plainObject [(''DEBUG'', ''1'')])) None
             = Inr m
          \<and> get (data m) ''DEBUG'' = Some (Bool True))"
proof -
  let ?S = "[(''DEBUG'', BooleanDecl None None)]"
  let ?R1 = "plainObject [(''DEBUG'', ''TRUE'')]"
  let ?R2 = "plainObject [(''DEBUG'', ''1'')]"
  have ctor: "applyConfig (initial ([] @ (''DEBUG'', BooleanDecl None None) # []) src) None
                = Inr (initial ?S src)" for src
    by (simp add: applyConfig_def)
  have pre: "keysPass (initial ?S src) []" for src by (simp add: keysPass_def)
  have ord: "''DEBUG'' \<notin> set objectPrototypeNames" by (simp add: objectPrototypeNames_def)
  have raw1: "readSource ?R1 (getPrefixedName (initial ?S ?R1) ''DEBUG'') = Some (RawString ''TRUE'')"
    by (simp add: getPrefixedName_initial readSource_plainObject [OF ord])
  have raw2: "readSource ?R2 (getPrefixedName (initial ?S ?R2) ''DEBUG'') = Some (RawString ''1'')"
    by (simp add: getPrefixedName_initial readSource_plainObject [OF ord])
  from boolean_conversion [of "[]" "''DEBUG''" None None "[]" ?R1 None "initial ?S ?R1" "''TRUE''",
      OF ctor pre raw1]
  have a: "create ?S (Some ?R1) None = Inl (InvalidBooleanError ''DEBUG'')"
    by (simp add: getPrefixedName_initial)
  from boolean_conversion [of "[]" "''DEBUG''" None None "[]" ?R2 None "initial ?S ?R2" "''1''",
      OF ctor pre raw2]
  have b: "\<exists>m. create ?S (Some ?R2) None = Inr m \<and> get (data m) ''DEBUG'' = Some (Bool True)"
    by (simp add: accepts_def keysPass_def)
  from a b show ?thesis by blast
qed

text \<open>
  C4, amended. A key for which the source holds no string at the effective lookup key,
  and inherits no property of that name from its prototype, so that the raw value read is
  \<^verbatim>\<open>undefined\<close>. When the declaration is required, and it is unless \<^verbatim>\<open>required\<close> is false,
  construction fails with the error whose message is the text for a missing variable
  followed by the effective lookup key. Otherwise the key gives \<^verbatim>\<open>undefined\<close>, whatever
  the kind and the validator of the declaration are (no validator is called), the loop
  goes on with the next key, and a construction that succeeds stores \<^verbatim>\<open>undefined\<close> under
  the key (the key \<^verbatim>\<open>__proto__\<close> apart).
\<close>

theorem absent_value:
  assumes ctor: "applyConfig (initial (pre @ (key, declaration) # post) src) config = Inr this"
    and pre: "keysPass this pre"
    and absent: "ownString src (getPrefixedName this key) = None"
    and ordinary: "own src (getPrefixedName this key) = None \<longrightarrow>
                     inherited (proto src) (getPrefixedName this key) = None"
  shows "isRequired declaration = (required declaration \<noteq> Some False)
       \<and> (isRequired declaration \<longrightarrow>
            create (pre @ (key, declaration) # post) (Some src) config
              = Inl (Error (''[Env Manager] - Missing required environment variable: ''
                            @ getPrefixedName this key)))
       \<and> (\<not> isRequired declaration \<longrightarrow>
            parseKey this key declaration = Inr Undefined
            \<and> (\<forall>d'. required d' = required declaration \<longrightarrow> parseKey this key d' = Inr Undefined)
            \<and> (\<forall>env. parseEnv_loop this env ((key, declaration) # post)
                       = parseEnv_loop this (assign ObjectPrototype env key Undefined) post)
            \<and> (keysPass this post \<and> distinct (map fst (pre @ (key, declaration) # post))
                 \<and> key \<noteq> ''__proto__'' \<longrightarrow>
                 (\<exists>m. create (pre @ (key, declaration) # post) (Some src) config = Inr m
                       \<and> get (data m) key = Some Undefined)))"
proof -
  let ?n = "getPrefixedName this key"
  from absent ordinary have "readSource src ?n = None"
    by (auto simp: readSource_def ownString_def split: option.splits)
  with applyConfig_source [OF ctor] have a: "readSource (this_source this) ?n = None" by simp
  note pk = parseKey_absent [OF a]
  have 1: "isRequired declaration \<longrightarrow>
            create (pre @ (key, declaration) # post) (Some src) config
              = Inl (Error (''[Env Manager] - Missing required environment variable: '' @ ?n))"
    using create_fails_at [OF ctor pre, of "MissingVariableError ?n"] pk
    by (simp add: MissingVariableError_def)
  have 2: "parseKey this key declaration = Inr Undefined" if "\<not> isRequired declaration"
    using that pk by simp
  have 3: "parseKey this key d' = Inr Undefined"
    if "\<not> isRequired declaration" "required d' = required declaration" for d'
    using that pk [of d'] by (simp add: isRequired_def)
  have 4: "parseEnv_loop this env ((key, declaration) # post)
            = parseEnv_loop this (assign ObjectPrototype env key Undefined) post"
    if "\<not> isRequired declaration" for env
    using 2 [OF that] by simp
  have 5: "\<exists>m. create (pre @ (key, declaration) # post) (Some src) config = Inr m
              \<and> get (data m) key = Some Undefined"
    if "\<not> isRequired declaration" "keysPass this post"
      "distinct (map fst (pre @ (key, declaration) # post))" "key \<noteq> ''__proto__''"
    using create_stores [OF ctor pre 2 [OF that(1)] that(2,3,4)] .
  from 1 2 3 4 5 show ?thesis by (simp add: isRequired_default)
qed

theorem absent_value_witness:
  "create [(''PORT'', NumberDecl None None)] (Some (plainObject [])) None
     = Inl (Error ''[Env Manager] - Missing required environment variable: PORT'')
   \<and> (\<exists>m. create [(''OPT'', StringDecl (Some (\<lambda>s. RBool False)) (Some False))]
              (Some (plainObject [])) None
             = Inr m
          \<and> get (data m) ''OPT'' = Some Undefined)
   \<and> create [(''constructor'', NumberDecl None None)]
        (Some \<lparr>own = Map.empty, proto = NullPrototype\<rparr>) None
     = Inl (Error ''[Env Manager] - Missing required environment variable: constructor'')"
proof -
  let ?d1 = "NumberDecl None None"
  let ?d2 = "StringDecl (Some (\<lambda>s. RBool False)) (Some False)"
  let ?E = "plainObject []"
  let ?N = "\<lparr>own = Map.empty, proto = NullPrototype\<rparr>"
  have pre: "keysPass t []" for t by (simp add: keysPass_def)
  have ctor: "applyConfig (initial ([] @ (k, d) # []) src) None = Inr (initial [(k, d)] src)"
    for k d src
    by (simp add: applyConfig_None)
  have abs1: "ownString ?E n = None" for n by (simp add: ownString_plainObject)
  have abs2: "ownString ?N n = None" for n by (simp add: ownString_def)
  have ord1: "own ?E (getPrefixedName (initial [(''PORT'', ?d1)] ?E) ''PORT'') = None \<longrightarrow>
              inherited (proto ?E) (getPrefixedName (initial [(''PORT'', ?d1)] ?E) ''PORT'') = None"
    by (simp add: getPrefixedName_initial inherited_def objectPrototypeNames_def)
  have ord2: "own ?E (getPrefixedName (initial [(''OPT'', ?d2)] ?E) ''OPT'') = None \<longrightarrow>
              inherited (proto ?E) (getPrefixedName (initial [(''OPT'', ?d2)] ?E) ''OPT'') = None"
    by (simp add: getPrefixedName_initial inherited_def objectPrototypeNames_def)
  have ord3: "own ?N (getPrefixedName (initial [(''constructor'', ?d1)] ?N) ''constructor'') = None \<longrightarrow>
              inherited (proto ?N) (getPrefixedName (initial [(''constructor'', ?d1)] ?N) ''constructor'')
                = None"
    by (simp add: inherited_null)
  from absent_value [of "[]" "''PORT''" ?d1 "[]" ?E None "initial [(''PORT'', ?d1)] ?E",
      OF ctor pre abs1 ord1]
  have a: "create [(''PORT'', ?d1)] (Some ?E) None
             = Inl (Error ''[Env Manager] - Missing required environment variable: PORT'')"
    by (simp add: getPrefixedName_initial isRequired_def)
  from absent_value [of "[]" "''OPT''" ?d2 "[]" ?E None "initial [(''OPT'', ?d2)] ?E",
      OF ctor pre abs1 ord2]
  have b: "\<exists>m. create [(''OPT'', ?d2)] (Some ?E) None = Inr m
             \<and> get (data m) ''OPT'' = Some Undefined"
    by (simp add: isRequired_def keysPass_def)
  from absent_value [of "[]" "''constructor''" ?d1 "[]" ?N None
      "initial [(''constructor'', ?d1)] ?N", OF ctor pre abs2 ord3]
  have c: "create [(''constructor'', ?d1)] (Some ?N) None
             = Inl (Error ''[Env Manager] - Missing required environment variable: constructor'')"
    by (simp add: getPrefixedName_initial isRequired_def)
  from a b c show ?thesis by blast
qed

text \<open>
  The claim C4 as it is written fails on a key that is absent from the source and is the
  name of a property of \<^verbatim>\<open>Object.prototype\<close>, when the source is a plain object: the read
  finds the inherited member, and the branch for an absent value is not taken. A required
  key of kind Number fails with the error of an invalid number, and an optional key of kind
  String is parsed to the text of the member.
\<close>

theorem absent_inherited_counterexample:
  "ownString (plainObject []) ''constructor'' = None
   \<and> isRequired (NumberDecl None None)
   \<and> map_sum id data
        (create [(''constructor'', NumberDecl None None)] (Some (plainObject [])) None)
       = Inl (Error ''[Env Manager] - Environment variable constructor is not a valid number.'')
   \<and> ownString (plainObject []) ''toString'' = None
   \<and> \<not> isRequired (StringDecl None (Some False))
   \<and> map_sum id data
        (create [(''toString'', StringDecl None (Some False))] (Some (plainObject [])) None)
       = Inr [(''toString'', Str ''function toString() { [native code] }'')]"
proof -
  have 1: "ownString (plainObject []) k = None" for k by (simp add: ownString_plainObject)
  have 2: "isRequired (NumberDecl None None)" "\<not> isRequired (StringDecl None (Some False))"
    by (simp_all add: isRequired_def)
  have 3: "map_sum id data
        (create [(''constructor'', NumberDecl None None)] (Some (plainObject [])) None)
       = Inl (Error ''[Env Manager] - Environment variable constructor is not a valid number.'')"
    by code_simp
  have 4: "map_sum id data
        (create [(''toString'', StringDecl None (Some False))] (Some (plainObject [])) None)
       = Inr [(''toString'', Str ''function toString() { [native code] }'')]"
    by code_simp
  from 1 2 3 4 show ?thesis by simp
qed

text \<open>
  C2. A key of kind Number is to fail with the error of an invalid number on every raw
  string that does not represent a finite number, the empty string among them. The code
  tests \<^verbatim>\<open>isNaN(Number(raw))\<close>, and \<^verbatim>\<open>Number\<close> gives \<open>0\<close> for the empty string and for a
  string of white space. On these inputs construction succeeds and stores \<open>0\<close>, where the
  claim has the error; \<^verbatim>\<open>Infinity\<close> and a literal too large for a binary64 value pass the
  same test and are stored as an infinity.
\<close>

theorem number_key_empty_string:
  "map_sum id data
     (create [(''PORT'', NumberDecl None None)] (Some (plainObject [(''PORT'', '''')])) None)
     = Inr [(''PORT'', Num (Finite 0))]
   \<and> map_sum id data
     (create [(''PORT'', NumberDecl None None)] (Some (plainObject [(''PORT'', ''  '')])) None)
     = Inr [(''PORT'', Num (Finite 0))]
   \<and> map_sum id data
     (create [(''PORT'', NumberDecl None None)] (Some (plainObject [(''PORT'', ''Infinity'')])) None)
     = Inr [(''PORT'', Num PosInfinity)]
   \<and> map_sum id data
     (create [(''PORT'', NumberDecl None None)] (Some (plainObject [(''PORT'', ''80a'')])) None)
     = Inl (Error ''[Env Manager] - Environment variable PORT is not a valid number.'')"
  by code_simp

lemma parseKey_present:
  assumes "readSource (this_source this) (getPrefixedName this key) = Some (RawString raw)"
    and "convertible d raw"
  shows "parseKey this key d =
           (case validatorResult d raw of
              None \<Rightarrow> Inr (expectedValue d (Some raw))
            | Some res \<Rightarrow>
                if res = RBool True then Inr (expectedValue d (Some raw))
                else Inl (ValidationError (getPrefixedName this key) res))"
proof (cases d)
  case (StringDecl f r)
  with assms show ?thesis
    by (cases f) (simp_all add: parseKey_String validate_def validatorResult_def expectedValue_def)
next
  case (NumberDecl f r)
  with assms show ?thesis
    by (cases f)
      (simp_all add: parseKey_Number validate_def validatorResult_def expectedValue_def
        convertible_def)
next
  case (BooleanDecl f r)
  with assms show ?thesis
    by (cases f)
      (auto simp: parseKey_Boolean validate_def validatorResult_def expectedValue_def
        convertible_def)
qed

lemma validFor_convertible:
  "validFor d raw = (convertible d raw \<and> validatorResult d raw \<in> {None, Some (RBool True)})"
  by (cases d) (auto simp: validFor_def convertible_def validatorResult_def accepts_def
      split: option.splits)

lemma parseKey_validFor:
  assumes "readSource (this_source this) (getPrefixedName this key) = Some (RawString raw)"
    and "validFor d raw"
  shows "parseKey this key d = Inr (expectedValue d (Some raw))"
  using assms(2) parseKey_present [OF assms(1), of d]
  by (auto simp: validFor_convertible)

text \<open>
  C8. A key whose declaration carries a validator and whose raw value is present and
  converts to the declared kind. The validator is applied to the parsed, typed value
  (the raw string, its number, its boolean). When it returns \<^verbatim>\<open>true\<close> the key gives the
  parsed value, and a construction that succeeds stores it (the key \<^verbatim>\<open>__proto__\<close> apart).
  When it returns anything else,
  construction fails with the validation error that names the effective lookup key; its
  message ends after the generic text when the validator returned \<^verbatim>\<open>false\<close>, and with the
  returned string when it returned a string.
\<close>

theorem validator_outcome:
  assumes ctor: "applyConfig (initial (pre @ (key, declaration) # post) src) config = Inr this"
    and pre: "keysPass this pre"
    and raw: "readSource src (getPrefixedName this key) = Some (RawString raw)"
    and conv: "convertible declaration raw"
    and res: "validatorResult declaration raw = Some res"
  shows "(res = RBool True \<longrightarrow>
            parseKey this key declaration = Inr (expectedValue declaration (Some raw))
            \<and> (keysPass this post \<and> distinct (map fst (pre @ (key, declaration) # post))
                 \<and> key \<noteq> ''__proto__'' \<longrightarrow>
                 (\<exists>m. create (pre @ (key, declaration) # post) (Some src) config = Inr m
                       \<and> get (data m) key = Some (expectedValue declaration (Some raw)))))
       \<and> (res \<noteq> RBool True \<longrightarrow>
            create (pre @ (key, declaration) # post) (Some src) config
              = Inl (ValidationError (getPrefixedName this key) res))
       \<and> (res = RBool False \<longrightarrow>
            ValidationError (getPrefixedName this key) res
              = Error (''[Env Manager] - Environment variable '' @ getPrefixedName this key
                       @ '' failed custom validation. ''))
       \<and> (\<forall>s. res = RString s \<longrightarrow>
            ValidationError (getPrefixedName this key) res
              = Error (''[Env Manager] - Environment variable '' @ getPrefixedName this key
                       @ '' failed custom validation. '' @ s))"
proof -
  let ?n = "getPrefixedName this key"
  let ?S = "pre @ (key, declaration) # post"
  from applyConfig_source [OF ctor] raw
  have r: "readSource (this_source this) ?n = Some (RawString raw)" by simp
  from parseKey_present [OF r conv] res
  have pk: "parseKey this key declaration =
              (if res = RBool True then Inr (expectedValue declaration (Some raw))
               else Inl (ValidationError ?n res))"
    by simp
  have 1: "parseKey this key declaration = Inr (expectedValue declaration (Some raw))"
    if "res = RBool True"
    using pk that by simp
  have 2: "\<exists>m. create ?S (Some src) config = Inr m
              \<and> get (data m) key = Some (expectedValue declaration (Some raw))"
    if "res = RBool True" "keysPass this post" "distinct (map fst ?S)" "key \<noteq> ''__proto__''"
    using create_stores [OF ctor pre 1 [OF that(1)] that(2,3,4)] .
  have 3: "create ?S (Some src) config = Inl (ValidationError ?n res)" if "res \<noteq> RBool True"
    using create_fails_at [OF ctor pre, of "ValidationError ?n res"] pk that by simp
  have 4: "ValidationError ?n (RBool False)
             = Error (''[Env Manager] - Environment variable '' @ ?n
                      @ '' failed custom validation. '')"
    by (simp add: ValidationError_def)
  have 5: "ValidationError ?n (RString s)
             = Error (''[Env Manager] - Environment variable '' @ ?n
                      @ '' failed custom validation. '' @ s)" for s
    by (simp add: ValidationError_def)
  from 1 2 3 4 5 show ?thesis by blast
qed

theorem validator_outcome_witness:
  "create [(''PORT'', NumberDecl (Some (\<lambda>p. if p = Finite 80 then RBool True else RString ''bad port'')) None)]
       (Some (plainObject [(''PORT'', ''81'')])) None
     = Inl (Error ''[Env Manager] - Environment variable PORT failed custom validation. bad port'')
   \<and> (\<exists>m. create [(''PORT'', NumberDecl (Some (\<lambda>p. if p = Finite 80 then RBool True else RString ''bad port'')) None)]
              (Some (plainObject [(''PORT'', ''80'')])) None = Inr m
          \<and> get (data m) ''PORT'' = Some (Num (Finite 80)))
   \<and> create [(''NAME'', StringDecl (Some (\<lambda>s. RBool (s \<noteq> []))) None)]
        (Some (plainObject [(''NAME'', '''')])) None
       = Inl (Error ''[Env Manager] - Environment variable NAME failed custom validation. '')"
proof -
  let ?f = "\<lambda>p. if p = Finite 80 then RBool True else RString ''bad port''"
  let ?d = "NumberDecl (Some ?f) None"
  let ?S = "[(''PORT'', ?d)]"
  let ?R1 = "plainObject [(''PORT'', ''81'')]"
  let ?R2 = "plainObject [(''PORT'', ''80'')]"
  let ?g = "\<lambda>s :: string. RBool (s \<noteq> [])"
  let ?e = "StringDecl (Some ?g) None"
  let ?T = "[(''NAME'', ?e)]"
  let ?R3 = "plainObject [(''NAME'', '''')]"
  have ctor: "applyConfig (initial ([] @ (k, d) # []) src) None = Inr (initial [(k, d)] src)"
    for k d src
    by (simp add: applyConfig_None)
  have pre: "keysPass t []" for t by (simp add: keysPass_def)
  have ord: "''PORT'' \<notin> set objectPrototypeNames" "''NAME'' \<notin> set objectPrototypeNames"
    by (simp_all add: objectPrototypeNames_def)
  have raw1: "readSource ?R1 (getPrefixedName (initial ?S ?R1) ''PORT'') = Some (RawString ''81'')"
    by (simp add: getPrefixedName_initial readSource_plainObject [OF ord(1)])
  have raw2: "readSource ?R2 (getPrefixedName (initial ?S ?R2) ''PORT'') = Some (RawString ''80'')"
    by (simp add: getPrefixedName_initial readSource_plainObject [OF ord(1)])
  have raw3: "readSource ?R3 (getPrefixedName (initial ?T ?R3) ''NAME'') = Some (RawString '''')"
    by (simp add: getPrefixedName_initial readSource_plainObject [OF ord(2)])
  have n1: "Number ''81'' = Finite 81" by code_simp
  have n2: "Number ''80'' = Finite 80" by code_simp
  have conv1: "convertible ?d ''81''" by (simp add: convertible_def n1 isNaN_def)
  have conv2: "convertible ?d ''80''" by (simp add: convertible_def n2 isNaN_def)
  have conv3: "convertible ?e ''''" by (simp add: convertible_def)
  have res1: "validatorResult ?d ''81'' = Some (RString ''bad port'')"
    by (simp add: validatorResult_def n1)
  have res2: "validatorResult ?d ''80'' = Some (RBool True)"
    by (simp add: validatorResult_def n2)
  have res3: "validatorResult ?e '''' = Some (RBool False)"
    by (simp add: validatorResult_def)
  note t1 = validator_outcome [of "[]" "''PORT''" ?d "[]" ?R1 None "initial ?S ?R1" "''81''"
      "RString ''bad port''", OF ctor pre raw1 conv1 res1]
  note t2 = validator_outcome [of "[]" "''PORT''" ?d "[]" ?R2 None "initial ?S ?R2" "''80''"
      "RBool True", OF ctor pre raw2 conv2 res2]
  note t3 = validator_outcome [of "[]" "''NAME''" ?e "[]" ?R3 None "initial ?T ?R3" "''''"
      "RBool False", OF ctor pre raw3 conv3 res3]
  from t1 have a: "create ?S (Some ?R1) None
      = Inl (Error ''[Env Manager] - Environment variable PORT failed custom validation. bad port'')"
    by (simp add: getPrefixedName_initial)
  from t2 have b: "\<exists>m. create ?S (Some ?R2) None = Inr m \<and> get (data m) ''PORT'' = Some (Num (Finite 80))"
    by (simp add: keysPass_def expectedValue_def n2)
  from t3 have c: "create ?T (Some ?R3) None
      = Inl (Error ''[Env Manager] - Environment variable NAME failed custom validation. '')"
    by (simp add: getPrefixedName_initial)
  from a b c show ?thesis by blast
qed

text \<open>
  Construction against a source that is valid for the schema at the names the keys are
  read at, when the source inherits no property under a name that it has no property of.
\<close>

lemma create_valid:
  assumes ctor: "applyConfig (initial schema src) config = Inr this"
    and dist: "distinct (map fst schema)"
    and np: "''__proto__'' \<notin> fst ` set schema"
    and names: "\<And>k. getPrefixedName this k = name k"
    and ord: "\<And>k d. (k, d) \<in> set schema \<Longrightarrow>
                   own src (name k) = None \<longrightarrow> inherited (proto src) (name k) = None"
    and valid: "keysValidAt name schema src"
  shows "\<exists>m. create schema (Some src) config = Inr m
           \<and> set (Object_keys (data m)) = set (Object_keys schema)
           \<and> (\<forall>(k, d) \<in> set schema.
                  get (data m) k = Some (expectedValue d (ownString src (name k))))"
proof -
  note source = applyConfig_source [OF ctor]
  have key: "parseKey this k d = Inr (expectedValue d (ownString src (name k)))"
    if "(k, d) \<in> set schema" for k d
  proof (cases "ownString src (name k)")
    case None
    with valid that have "\<not> isRequired d" by (auto simp: keysValidAt_def list_all_iff)
    moreover from None ord [OF that] have "readSource (this_source this) (getPrefixedName this k) = None"
      by (simp add: names source readSource_own)
    ultimately show ?thesis using None by (simp add: parseKey_absent expectedValue_def)
  next
    case (Some raw)
    with valid that have v: "validFor d raw" by (auto simp: keysValidAt_def list_all_iff)
    from Some ord [OF that]
    have "readSource (this_source this) (getPrefixedName this k) = Some (RawString raw)"
      by (simp add: names source readSource_own)
    from parseKey_validFor [OF this v] Some show ?thesis by simp
  qed
  then have "keysPass this schema" by (auto simp: keysPass_def list_all_iff)
  from create_passes [OF ctor this] dist obtain m where
    m: "create schema (Some src) config = Inr m"
    and keys: "fst ` set (data m) = fst ` set schema - {''__proto__''}"
    and vals: "\<forall>(k, d) \<in> set schema. k \<noteq> ''__proto__'' \<longrightarrow>
                 parseKey this k d = Inr (the (get (data m) k)) \<and> get (data m) k \<noteq> None"
    by blast
  have val: "get (data m) k = Some (expectedValue d (ownString src (name k)))"
    if "(k, d) \<in> set schema" for k d
  proof -
    from that np have "k \<noteq> ''__proto__''" by force
    with vals that key [OF that] show ?thesis by auto
  qed
  have k': "set (Object_keys (data m)) = set (Object_keys schema)"
    using keys np by (simp add: Object_keys_def)
  from m k' val show ?thesis by blast
qed

subsection \<open>Scopes\<close>

text \<open>The scope table after the configuration was read.\<close>

lemma applyConfig_scopes:
  "applyConfig (initial schema src) (Some c) = Inr this \<Longrightarrow>
   this_scopes this = (case scopes c of None \<Rightarrow> defaultScopes | Some user \<Rightarrow> spread defaultScopes user)"
  by (auto simp: applyConfig_def initial_def Let_def split: option.splits if_splits)

lemma applyConfig_enableScopes:
  "applyConfig (initial schema src) config = Inr this \<Longrightarrow>
   this_enableScopes this = (\<not> scopesDisabled config)"
  by (auto simp: applyConfig_def initial_def Let_def scopesDisabled_def
      split: option.splits if_splits)

lemma applyConfig_currentScope:
  "applyConfig (initial schema src) config = Inr this \<Longrightarrow>
   this_currentScope this = initCurrentScope src"
  using applyConfig_fields [of "initial schema src" config this] by (simp add: initial_def)

lemma initCurrentScope_truthy: "initCurrentScope src = Some scope \<Longrightarrow> scope \<noteq> []"
  by (auto simp: initCurrentScope_def Let_def split: if_splits)



lemma initCurrentScope_plainObject:
  "initCurrentScope (plainObject kvs) =
     (case map_of kvs ''NODE_ENV'' of None \<Rightarrow> None | Some s \<Rightarrow> if s = [] then None else Some s)"
  by (simp add: initCurrentScope_def readSource_plainObject [OF NODE_ENV_ordinary]
      split: option.splits)

lemma getPrefixedName_source:
  "getPrefixedName (this\<lparr>this_source := s\<rparr>) name = getPrefixedName this name"
  by (simp add: getPrefixedName_def split: option.splits)

lemma parseKey_reads_rawName:
  "readSource src' (getPrefixedName this name)
     = readSource (this_source this) (getPrefixedName this name) \<Longrightarrow>
   parseKey (this\<lparr>this_source := src'\<rparr>) name d = parseKey this name d"
  unfolding parseKey_def getPrefixedName_source by (simp add: Let_def)

text \<open>
  C5. After the configuration was read, scopes are enabled exactly when the configuration
  says so and the current scope is what \<^verbatim>\<open>NODE_ENV\<close> gives. With scopes enabled and a
  current scope whose entry in the scope table is \<open>prefix\<close>, the effective lookup key of
  \<open>name\<close> is the prefix, an underscore and the name; for the empty prefix that is the
  underscore and the name. With scopes disabled, or no current scope, it is the name.
  The effective lookup key is the one key of the source a schema key depends on. The two
  cases hold of \<^verbatim>\<open>getPrefixedName\<close> on every state \<open>t\<close> of an instance, where a current
  scope is known when the field is a string that is not empty.
\<close>

theorem effective_lookup_key:
  assumes ctor: "applyConfig (initial schema src) config = Inr this"
  shows "this_enableScopes this = (\<not> scopesDisabled config)
       \<and> this_currentScope this = initCurrentScope src
       \<and> (\<forall>scope prefix.
             \<not> scopesDisabled config \<and> initCurrentScope src = Some scope
             \<and> get (this_scopes this) scope = Some prefix
             \<longrightarrow> getPrefixedName this name = prefix @ ''_'' @ name)
       \<and> (\<forall>scope.
             \<not> scopesDisabled config \<and> initCurrentScope src = Some scope
             \<and> get (this_scopes this) scope = Some []
             \<longrightarrow> getPrefixedName this name = ''_'' @ name)
       \<and> (scopesDisabled config \<or> initCurrentScope src = None \<longrightarrow> getPrefixedName this name = name)
       \<and> (\<forall>d src'. readSource src' (getPrefixedName this name)
                      = readSource src (getPrefixedName this name)
             \<longrightarrow> parseKey (this\<lparr>this_source := src'\<rparr>) name d = parseKey this name d)
       \<and> (\<forall>t scope prefix.
             this_enableScopes t \<and> this_currentScope t = Some scope \<and> scope \<noteq> []
             \<and> get (this_scopes t) scope = Some prefix
             \<longrightarrow> getPrefixedName t name = prefix @ ''_'' @ name)
       \<and> (\<forall>t. \<not> this_enableScopes t \<or> \<not> truthy (this_currentScope t)
             \<longrightarrow> getPrefixedName t name = name)"
proof -
  note en = applyConfig_enableScopes [OF ctor]
  note cur = applyConfig_currentScope [OF ctor]
  have 1: "getPrefixedName this name = prefix @ ''_'' @ name"
    if "\<not> scopesDisabled config" "initCurrentScope src = Some scope"
      "get (this_scopes this) scope = Some prefix" for scope prefix
    using that en cur initCurrentScope_truthy [of src scope]
    by (simp add: getPrefixedName_def readProperty_own)
  have 2: "getPrefixedName this name = name"
    if "scopesDisabled config \<or> initCurrentScope src = None"
    using that en cur by (auto simp: getPrefixedName_def split: option.splits)
  have 3: "parseKey (this\<lparr>this_source := src'\<rparr>) name d = parseKey this name d"
    if "readSource src' (getPrefixedName this name) = readSource src (getPrefixedName this name)"
    for d src'
    using that parseKey_reads_rawName [of src' this name d] applyConfig_source [OF ctor]
    by simp
  from 1 [of _ "[]"] have 4: "getPrefixedName this name = ''_'' @ name"
    if "\<not> scopesDisabled config" "initCurrentScope src = Some scope"
      "get (this_scopes this) scope = Some []" for scope
    using that by simp
  have 5: "getPrefixedName t name = prefix @ ''_'' @ name"
    if "this_enableScopes t" "this_currentScope t = Some scope" "scope \<noteq> []"
      "get (this_scopes t) scope = Some prefix" for t scope prefix
    using that by (simp add: getPrefixedName_def readProperty_own)
  have 6: "getPrefixedName t name = name"
    if "\<not> this_enableScopes t \<or> \<not> truthy (this_currentScope t)" for t
    using that by (auto simp: getPrefixedName_def split: option.splits)
  from en cur 1 2 3 4 5 6 show ?thesis by blast
qed

theorem effective_lookup_key_witness:
  "getPrefixedName
     ((initial [] (plainObject [(''NODE_ENV'', ''production'')]))
        \<lparr>this_scopes := spread defaultScopes [(''production'', '''')], this_enableScopes := True\<rparr>)
     ''API_KEY'' = ''_API_KEY''
   \<and> getPrefixedName
     ((initial [] (plainObject [(''NODE_ENV'', ''development'')]))\<lparr>this_enableScopes := True\<rparr>)
     ''API_KEY'' = ''DEV_API_KEY''
   \<and> getPrefixedName (initial [] (plainObject [(''NODE_ENV'', ''development'')])) ''API_KEY''
     = ''API_KEY''"
proof -
  let ?R1 = "plainObject [(''NODE_ENV'', ''production'')]"
  let ?R2 = "plainObject [(''NODE_ENV'', ''development'')]"
  let ?c1 = "\<lparr>enableScopes = Some True, scopes = Some [(''production'', '''')]\<rparr>"
  let ?c2 = "\<lparr>enableScopes = Some True, scopes = None\<rparr>"
  let ?t1 = "(initial [] ?R1)
               \<lparr>this_scopes := spread defaultScopes [(''production'', '''')], this_enableScopes := True\<rparr>"
  let ?t2 = "(initial [] ?R2)\<lparr>this_enableScopes := True\<rparr>"
  have s1: "initCurrentScope ?R1 = Some ''production''" by (simp add: initCurrentScope_plainObject)
  have s2: "initCurrentScope ?R2 = Some ''development''" by (simp add: initCurrentScope_plainObject)
  have ctor1: "applyConfig (initial [] ?R1) (Some ?c1) = Inr ?t1"
    using s1 by (simp add: applyConfig_def initial_def)
  have ctor2: "applyConfig (initial [] ?R2) (Some ?c2) = Inr ?t2"
    using s2 by (simp add: applyConfig_def initial_def)
  have ctor3: "applyConfig (initial [] ?R2) None = Inr (initial [] ?R2)"
    by (simp add: applyConfig_None)
  have g1: "get (spread defaultScopes [(''production'', '''')]) ''production'' = Some []"
    by code_simp
  then have g1': "get (this_scopes ?t1) ''production'' = Some []" by simp
  have g2: "get (this_scopes ?t2) ''development'' = Some ''DEV''"
    by (simp add: initial_def defaultScopes_def get_def)
  have e1: "\<not> scopesDisabled (Some ?c1)" by (simp add: scopesDisabled_def)
  have e2: "\<not> scopesDisabled (Some ?c2)" by (simp add: scopesDisabled_def)
  have e3: "scopesDisabled None" by (simp add: scopesDisabled_def)
  from effective_lookup_key [OF ctor1, of "''API_KEY''"] e1 s1 g1'
  have a: "getPrefixedName ?t1 ''API_KEY'' = ''_API_KEY''" by simp
  from effective_lookup_key [OF ctor2, of "''API_KEY''"] e2 s2 g2
  have b: "getPrefixedName ?t2 ''API_KEY'' = ''DEV_API_KEY''" by simp
  from effective_lookup_key [OF ctor3, of "''API_KEY''"] e3
  have c: "getPrefixedName (initial [] ?R2) ''API_KEY'' = ''API_KEY''" by simp
  from a b c show ?thesis by blast
qed








text \<open>
  C7. When the configuration supplies scopes, the scope table of the instance is the default
  table overlaid with them: a key the user supplies maps to the prefix the user gave it,
  and every other key maps to what the default table development \<open>\<rightarrow>\<close> DEV,
  production \<open>\<rightarrow>\<close> PROD, test \<open>\<rightarrow>\<close> TEST, staging \<open>\<rightarrow>\<close> STAGE gives it. A construction that
  succeeds keeps that table.
\<close>

theorem scope_table_merge:
  assumes user: "scopes c = Some user"
    and dist: "distinct (map fst user)"
    and ctor: "applyConfig (initial schema src) (Some c) = Inr this"
  shows "this_scopes this = spread defaultScopes user
       \<and> (\<forall>k p. get user k = Some p \<longrightarrow> get (this_scopes this) k = Some p)
       \<and> (\<forall>k. get user k = None \<longrightarrow>
              get (this_scopes this) k
                = get [(''development'', ''DEV''), (''production'', ''PROD''), (''test'', ''TEST''),
                       (''staging'', ''STAGE'')] k)
       \<and> (\<forall>m. create schema (Some src) (Some c) = Inr m \<longrightarrow> this_scopes m = this_scopes this)"
proof -
  from applyConfig_scopes [OF ctor] user have 1: "this_scopes this = spread defaultScopes user"
    by simp
  have 2: "get (this_scopes this) k = Some p" if "get user k = Some p" for k p
    using that by (simp add: 1 get_spread_default [OF dist])
  have 3: "get (this_scopes this) k
             = get [(''development'', ''DEV''), (''production'', ''PROD''), (''test'', ''TEST''),
                    (''staging'', ''STAGE'')] k"
    if "get user k = None" for k
    using that get_spread_default [OF dist, of k] by (simp add: 1 defaultScopes_def)
  have 4: "this_scopes m = this_scopes this" if "create schema (Some src) (Some c) = Inr m" for m
    using that ctor by (auto simp: create_Some split: sum.splits)
  from 1 2 3 4 show ?thesis by blast
qed

theorem scope_table_merge_witness:
  "(\<exists>m. create [] (Some (plainObject [(''NODE_ENV'', ''production'')]))
            (Some \<lparr>enableScopes = Some True, scopes = Some [(''production'', ''LIVE'')]\<rparr>) = Inr m
        \<and> get (this_scopes m) ''production'' = Some ''LIVE''
        \<and> get (this_scopes m) ''development'' = Some ''DEV''
        \<and> get (this_scopes m) ''test'' = Some ''TEST''
        \<and> get (this_scopes m) ''staging'' = Some ''STAGE'')"
proof -
  let ?R = "plainObject [(''NODE_ENV'', ''production'')]"
  let ?u = "[(''production'', ''LIVE'')]"
  let ?c = "\<lparr>enableScopes = Some True, scopes = Some ?u\<rparr>"
  let ?t = "(initial [] ?R)\<lparr>this_scopes := spread defaultScopes ?u, this_enableScopes := True\<rparr>"
  have user: "scopes ?c = Some ?u" by simp
  have dist: "distinct (map fst ?u)" by simp
  have s: "initCurrentScope ?R = Some ''production''" by (simp add: initCurrentScope_plainObject)
  have ctor: "applyConfig (initial [] ?R) (Some ?c) = Inr ?t"
    using s by (simp add: applyConfig_def initial_def)
  have c: "create [] (Some ?R) (Some ?c) = Inr (?t\<lparr>this_env := []\<rparr>)"
    using ctor by (simp add: create_Some parseEnv_def initial_def)
  note t = scope_table_merge [OF user dist ctor]
  from t have eq: "this_scopes (?t\<lparr>this_env := []\<rparr>) = this_scopes ?t" by simp
  have u1: "get ?u ''production'' = Some ''LIVE''" by (simp add: get_def)
  have u2: "get ?u ''development'' = None" "get ?u ''test'' = None" "get ?u ''staging'' = None"
    by (simp_all add: get_def)
  from t u1 have a: "get (this_scopes ?t) ''production'' = Some ''LIVE''" by blast
  from t u2(1) have b: "get (this_scopes ?t) ''development'' = Some ''DEV''"
    by (simp add: get_def)
  from t u2(2) have d: "get (this_scopes ?t) ''test'' = Some ''TEST''"
    by (simp add: get_def)
  from t u2(3) have e: "get (this_scopes ?t) ''staging'' = Some ''STAGE''"
    by (simp add: get_def)
  from c eq a b d e show ?thesis by simp
qed




subsection \<open>A source that is valid for the schema\<close>

lemma applyConfig_disabled:
  "scopesDisabled config \<Longrightarrow> \<exists>this. applyConfig (initial schema src) config = Inr this"
  by (auto simp: scopesDisabled_def applyConfig_def Let_def split: option.splits)

lemma getPrefixedName_disabled: "\<not> this_enableScopes this \<Longrightarrow> getPrefixedName this name = name"
  by (simp add: getPrefixedName_def split: option.splits)

lemma ordinaryKeys_no_proto: "ordinaryKeys schema src \<Longrightarrow> ''__proto__'' \<notin> fst ` set schema"
  by (force simp: ordinaryKeys_def list_all_iff)

text \<open>
  C1, amended. With scopes disabled, no key of the schema being \<^verbatim>\<open>__proto__\<close> and none
  that the source lacks being the name of a property the source inherits from
  \<^verbatim>\<open>Object.prototype\<close>, when every key of the schema that is present in the source,
  required or not, holds a string that is valid for its declaration, and every key that is
  absent is optional, construction succeeds; the keys of \<^verbatim>\<open>data()\<close> are the keys of the
  schema; a key of kind String that is present maps to the raw string, one of kind Number
  to \<^verbatim>\<open>Number\<close> of the raw string, one of kind Boolean to whether the raw string is
  \<^verbatim>\<open>true\<close> or \<^verbatim>\<open>1\<close>, and a key that is absent maps to \<^verbatim>\<open>undefined\<close>.
\<close>

theorem valid_source_parses:
  assumes dis: "scopesDisabled config"
    and dist: "distinct (map fst schema)"
    and ordinary: "ordinaryKeys schema src"
    and valid: "presentKeysValid schema src"
  shows "\<exists>m. create schema (Some src) config = Inr m
           \<and> set (Object_keys (data m)) = set (Object_keys schema)
           \<and> (\<forall>k f r raw. (k, StringDecl f r) \<in> set schema \<and> ownString src k = Some raw \<longrightarrow>
                  get (data m) k = Some (Str raw))
           \<and> (\<forall>k f r raw. (k, NumberDecl f r) \<in> set schema \<and> ownString src k = Some raw \<longrightarrow>
                  get (data m) k = Some (Num (Number raw)))
           \<and> (\<forall>k f r raw. (k, BooleanDecl f r) \<in> set schema \<and> ownString src k = Some raw \<longrightarrow>
                  get (data m) k = Some (Bool (raw = ''true'' \<or> raw = ''1'')))
           \<and> (\<forall>k d. (k, d) \<in> set schema \<and> ownString src k = None \<longrightarrow>
                  get (data m) k = Some Undefined)"
proof -
  from applyConfig_disabled [OF dis] obtain this where
    ctor: "applyConfig (initial schema src) config = Inr this" by blast
  from applyConfig_enableScopes [OF ctor] dis have "\<not> this_enableScopes this" by simp
  then have name: "getPrefixedName this k = k" for k by (rule getPrefixedName_disabled)
  have ord: "own src k = None \<longrightarrow> inherited (proto src) k = None" if "(k, d) \<in> set schema" for k d
    using ordinary that by (auto simp: ordinaryKeys_def list_all_iff)
  from valid have valid': "keysValidAt (\<lambda>k. k) schema src" by (simp add: presentKeysValid_def)
  have "\<exists>m. create schema (Some src) config = Inr m
           \<and> set (Object_keys (data m)) = set (Object_keys schema)
           \<and> (\<forall>(k, d) \<in> set schema.
                  get (data m) k = Some (expectedValue d (ownString src k)))"
  proof (rule create_valid [OF ctor dist ordinaryKeys_no_proto [OF ordinary] _ _ valid'])
    show "getPrefixedName this k = k" for k by (rule name)
    show "own src k = None \<longrightarrow> inherited (proto src) k = None" if "(k, d) \<in> set schema" for k d
      using that by (rule ord)
  qed
  then obtain m where
    m: "create schema (Some src) config = Inr m"
    and k': "set (Object_keys (data m)) = set (Object_keys schema)"
    and vals: "\<forall>(k, d) \<in> set schema. get (data m) k = Some (expectedValue d (ownString src k))"
    by blast
  have val: "get (data m) k = Some (expectedValue d (ownString src k))"
    if "(k, d) \<in> set schema" for k d
    using vals that by auto
  have s: "get (data m) k = Some (Str raw)"
    if "(k, StringDecl f r) \<in> set schema" "ownString src k = Some raw" for k f r raw
    using val [OF that(1)] that(2) by (simp add: expectedValue_def)
  have n: "get (data m) k = Some (Num (Number raw))"
    if "(k, NumberDecl f r) \<in> set schema" "ownString src k = Some raw" for k f r raw
    using val [OF that(1)] that(2) by (simp add: expectedValue_def)
  have b: "get (data m) k = Some (Bool (raw = ''true'' \<or> raw = ''1''))"
    if "(k, BooleanDecl f r) \<in> set schema" "ownString src k = Some raw" for k f r raw
    using val [OF that(1)] that(2) by (simp add: expectedValue_def)
  have u: "get (data m) k = Some Undefined"
    if "(k, d) \<in> set schema" "ownString src k = None" for k d
    using val [OF that(1)] that(2) by (simp add: expectedValue_def)
  from m k' s n b u show ?thesis by blast
qed

theorem valid_source_parses_witness:
  "\<exists>m. create [(''STRING_VAR'', StringDecl None (Some True)), (''NUMBER_VAR'', NumberDecl None (Some True)),
               (''BOOL_VAR'', BooleanDecl None (Some True)), (''OPTIONAL_VAR'', StringDecl None (Some False))]
         (Some (plainObject [(''STRING_VAR'', ''hello''), (''NUMBER_VAR'', ''42''),
                             (''BOOL_VAR'', ''true'')]))
         None = Inr m
     \<and> set (Object_keys (data m)) = {''STRING_VAR'', ''NUMBER_VAR'', ''BOOL_VAR'', ''OPTIONAL_VAR''}
     \<and> get (data m) ''STRING_VAR'' = Some (Str ''hello'')
     \<and> get (data m) ''NUMBER_VAR'' = Some (Num (Finite 42))
     \<and> get (data m) ''BOOL_VAR'' = Some (Bool True)
     \<and> get (data m) ''OPTIONAL_VAR'' = Some Undefined"
proof -
  let ?S = "[(''STRING_VAR'', StringDecl None (Some True)), (''NUMBER_VAR'', NumberDecl None (Some True)),
             (''BOOL_VAR'', BooleanDecl None (Some True)), (''OPTIONAL_VAR'', StringDecl None (Some False))]"
  let ?R = "plainObject [(''STRING_VAR'', ''hello''), (''NUMBER_VAR'', ''42''), (''BOOL_VAR'', ''true'')]"
  have dis: "scopesDisabled None" by (simp add: scopesDisabled_def)
  have dist: "distinct (map fst ?S)" by simp
  have ord: "ordinaryKeys ?S ?R" by (simp add: ordinaryKeys_def inherited_def objectPrototypeNames_def)
  have n: "Number ''42'' = Finite 42" by code_simp
  have valid: "presentKeysValid ?S ?R"
    by (simp add: presentKeysValid_def keysValidAt_def ownString_plainObject validFor_def
        accepts_def isRequired_def n isNaN_def)
  from valid_source_parses [OF dis dist ord valid] obtain m where
    m: "create ?S (Some ?R) None = Inr m"
    and keys: "set (Object_keys (data m)) = set (Object_keys ?S)"
    and s: "\<And>k f r raw. (k, StringDecl f r) \<in> set ?S \<and> ownString ?R k = Some raw \<longrightarrow>
              get (data m) k = Some (Str raw)"
    and nn: "\<And>k f r raw. (k, NumberDecl f r) \<in> set ?S \<and> ownString ?R k = Some raw \<longrightarrow>
              get (data m) k = Some (Num (Number raw))"
    and b: "\<And>k f r raw. (k, BooleanDecl f r) \<in> set ?S \<and> ownString ?R k = Some raw \<longrightarrow>
              get (data m) k = Some (Bool (raw = ''true'' \<or> raw = ''1''))"
    and u: "\<And>k d. (k, d) \<in> set ?S \<and> ownString ?R k = None \<longrightarrow> get (data m) k = Some Undefined"
    by blast
  from keys have 1: "set (Object_keys (data m))
      = {''STRING_VAR'', ''NUMBER_VAR'', ''BOOL_VAR'', ''OPTIONAL_VAR''}"
    by (simp add: Object_keys_def)
  from s [of "''STRING_VAR''" None "Some True" "''hello''"]
  have 2: "get (data m) ''STRING_VAR'' = Some (Str ''hello'')"
    by (simp add: ownString_plainObject)
  from nn [of "''NUMBER_VAR''" None "Some True" "''42''"]
  have 3: "get (data m) ''NUMBER_VAR'' = Some (Num (Finite 42))"
    by (simp add: n ownString_plainObject)
  from b [of "''BOOL_VAR''" None "Some True" "''true''"]
  have 4: "get (data m) ''BOOL_VAR'' = Some (Bool True)"
    by (simp add: ownString_plainObject)
  from u [of "''OPTIONAL_VAR''" "StringDecl None (Some False)"]
  have 5: "get (data m) ''OPTIONAL_VAR'' = Some Undefined"
    by (simp add: ownString_plainObject)
  from m 1 2 3 4 5 show ?thesis by blast
qed

text \<open>
  The claim C1 as it is written asks for valid strings of the required keys only. It fails
  on an optional key that is present with a string that does not convert: here the one
  required key holds a valid string and there is no validator, and construction fails.
  It fails as well on a key that is the name of a property of \<^verbatim>\<open>Object.prototype\<close>: an
  optional key \<^verbatim>\<open>constructor\<close> that an object literal lacks is read from the prototype, and
  a key \<^verbatim>\<open>__proto__\<close> is not among the keys of \<^verbatim>\<open>data()\<close>.
\<close>

theorem optional_key_invalid_counterexample:
  "scopesDisabled None
   \<and> requiredKeysValid
        [(''PORT'', NumberDecl None None), (''DEBUG'', BooleanDecl None (Some False))]
        (plainObject [(''PORT'', ''80''), (''DEBUG'', ''yes'')])
   \<and> map_sum id data
        (create [(''PORT'', NumberDecl None None), (''DEBUG'', BooleanDecl None (Some False))]
           (Some (plainObject [(''PORT'', ''80''), (''DEBUG'', ''yes'')])) None)
       = Inl (Error (''[Env Manager] - Environment variable DEBUG is not a valid boolean. Use ''
                     @ [CHR 0x22] @ ''true'' @ [CHR 0x22] @ '', '' @ [CHR 0x22] @ ''false''
                     @ [CHR 0x22] @ '', '' @ [CHR 0x22] @ ''1'' @ [CHR 0x22] @ '', or ''
                     @ [CHR 0x22] @ ''0'' @ [CHR 0x22] @ ''.''))
   \<and> presentKeysValid [(''constructor'', NumberDecl None (Some False))] (plainObject [])
   \<and> map_sum id data
        (create [(''constructor'', NumberDecl None (Some False))] (Some (plainObject [])) None)
       = Inl (Error ''[Env Manager] - Environment variable constructor is not a valid number.'')
   \<and> presentKeysValid [(''__proto__'', StringDecl None None)] (plainObject [(''__proto__'', ''x'')])
   \<and> map_sum id data
        (create [(''__proto__'', StringDecl None None)]
           (Some (plainObject [(''__proto__'', ''x'')])) None)
       = Inr []"
proof -
  let ?S = "[(''PORT'', NumberDecl None None), (''DEBUG'', BooleanDecl None (Some False))]"
  let ?R = "plainObject [(''PORT'', ''80''), (''DEBUG'', ''yes'')]"
  have 1: "scopesDisabled None" by (simp add: scopesDisabled_def)
  have n: "Number ''80'' = Finite 80" by code_simp
  have 2: "requiredKeysValid ?S ?R"
    by (simp add: requiredKeysValid_def ownString_plainObject isRequired_def validFor_def
        accepts_def n isNaN_def)
  have 3: "map_sum id data (create ?S (Some ?R) None)
       = Inl (Error (''[Env Manager] - Environment variable DEBUG is not a valid boolean. Use ''
                     @ [CHR 0x22] @ ''true'' @ [CHR 0x22] @ '', '' @ [CHR 0x22] @ ''false''
                     @ [CHR 0x22] @ '', '' @ [CHR 0x22] @ ''1'' @ [CHR 0x22] @ '', or ''
                     @ [CHR 0x22] @ ''0'' @ [CHR 0x22] @ ''.''))"
    by code_simp
  have 4: "presentKeysValid [(''constructor'', NumberDecl None (Some False))] (plainObject [])"
    by (simp add: presentKeysValid_def keysValidAt_def ownString_plainObject isRequired_def)
  have 5: "map_sum id data
        (create [(''constructor'', NumberDecl None (Some False))] (Some (plainObject [])) None)
       = Inl (Error ''[Env Manager] - Environment variable constructor is not a valid number.'')"
    by code_simp
  have 6: "presentKeysValid [(''__proto__'', StringDecl None None)]
             (plainObject [(''__proto__'', ''x'')])"
    by (simp add: presentKeysValid_def keysValidAt_def ownString_plainObject validFor_def
        accepts_def)
  have 7: "map_sum id data
        (create [(''__proto__'', StringDecl None None)]
           (Some (plainObject [(''__proto__'', ''x'')])) None)
       = Inr []"
    by code_simp
  from 1 2 3 4 5 6 7 show ?thesis by blast
qed

subsection \<open>The caller's source in the store\<close>

lemma length_writeProp: "length (writeProp h p k v) = length h"
  by (simp add: writeProp_def)

lemma writeProp_other: "a \<noteq> p \<Longrightarrow> writeProp h p k v ! a = h ! a"
  by (simp add: writeProp_def)

lemma length_freeze: "length (freeze h p) = length h"
  by (simp add: freeze_def)

lemma freeze_other: "a \<noteq> p \<Longrightarrow> freeze h p ! a = h ! a"
  by (simp add: freeze_def)

text \<open>The loop assigns to \<^verbatim>\<open>parsedEnv\<close> and to no other object.\<close>

lemma parseEnv_loop_st_frame:
  "parseEnv_loop_st this src p schema h = (r, h') \<Longrightarrow>
   length h' = length h \<and> (\<forall>a. a \<noteq> p \<longrightarrow> h' ! a = h ! a)"
proof (induction schema arbitrary: h)
  case Nil
  then show ?case by simp
next
  case (Cons kd schema)
  obtain key d where kd: "kd = (key, d)" by (cases kd)
  show ?case
  proof (cases "parseKey (this\<lparr>this_source := sourceAt h src\<rparr>) key d")
    case (Inl e)
    with Cons.prems kd show ?thesis by simp
  next
    case (Inr v)
    with Cons.prems kd have "parseEnv_loop_st this src p schema (writeProp h p key v) = (r, h')"
      by simp
    from Cons.IH [OF this] show ?thesis by (simp add: length_writeProp writeProp_other)
  qed
qed

lemma parseEnv_st_frame:
  assumes "parseEnv_st this src h = (r, h')"
  shows "length h \<le> length h' \<and> (\<forall>a < length h. h' ! a = h ! a)"
proof -
  let ?h1 = "h @ [\<lparr>props = [], prototypeOf = ObjectPrototype, frozen = False\<rparr>]"
  obtain u h2 where loop: "parseEnv_loop_st this src (length h) (this_schema this) ?h1 = (u, h2)"
    by (cases "parseEnv_loop_st this src (length h) (this_schema this) ?h1")
  from parseEnv_loop_st_frame [OF loop] have len: "length h2 = Suc (length h)"
    and same: "\<And>a. a < length h \<Longrightarrow> h2 ! a = h ! a"
    by (auto simp: nth_append)
  from assms loop have "h' = h2 \<or> h' = freeze h2 (length h)"
    by (auto simp: parseEnv_st_def alloc_def split: sum.splits)
  with len same show ?thesis by (auto simp: length_freeze freeze_other)
qed

lemma sourceAt_cong: "a < length h \<Longrightarrow> a < length h' \<Longrightarrow> h' ! a = h ! a \<Longrightarrow> sourceAt h' a = sourceAt h a"
  by (simp add: sourceAt_def)

text \<open>
  C10. Construction, whether it succeeds or fails, leaves every object that was in the
  store as it was: the store only grows. So the source of the caller keeps its properties,
  and reading it gives what it gave before. \<^verbatim>\<open>data()\<close> changes no object at all.
\<close>

theorem source_unchanged:
  assumes new: "EnvManager_new_st schema source config h = (r, h')"
  shows "length h \<le> length h'
       \<and> (\<forall>a < length h. h' ! a = h ! a)
       \<and> (\<forall>src. source = Some src \<and> src < length h \<longrightarrow>
              h' ! src = h ! src \<and> sourceAt h' src = sourceAt h src)
       \<and> (\<forall>m g. snd (data_st m g) = g)
       \<and> (\<forall>m. r = Inr m \<longrightarrow> fst (data_st m h') = inst_env m \<and> snd (data_st m (snd (data_st m h'))) = h')"
proof -
  have frame: "length h \<le> length h' \<and> (\<forall>a < length h. h' ! a = h ! a)"
  proof (cases source)
    case None
    with new show ?thesis by (simp add: EnvManager_new_st_def)
  next
    case (Some src)
    show ?thesis
    proof (cases "applyConfig (initial schema (sourceAt h src)) config")
      case (Inl e)
      with new Some show ?thesis by (simp add: EnvManager_new_st_def)
    next
      case (Inr this)
      obtain u g where p: "parseEnv_st this src h = (u, g)" by (cases "parseEnv_st this src h")
      with new Some Inr have "h' = g" by (auto simp: EnvManager_new_st_def split: sum.splits)
      with parseEnv_st_frame [OF p] show ?thesis by simp
    qed
  qed
  then have src: "h' ! src = h ! src \<and> sourceAt h' src = sourceAt h src" if "src < length h" for src
    using that sourceAt_cong [of src h h'] by auto
  have d: "snd (data_st m g) = g" "fst (data_st m g) = inst_env m" for m g
    by (simp_all add: data_st_def)
  from frame src d show ?thesis by simp
qed

theorem source_unchanged_witness:
  "snd (EnvManager_new_st [(''PORT'', NumberDecl None None), (''DEBUG'', BooleanDecl None None)] (Some 0) None
          [\<lparr>props = [(''PORT'', Str ''80''), (''DEBUG'', Str ''yes'')], prototypeOf = ObjectPrototype,
       frozen = False\<rparr>]) ! 0
     = \<lparr>props = [(''PORT'', Str ''80''), (''DEBUG'', Str ''yes'')], prototypeOf = ObjectPrototype,
       frozen = False\<rparr>
   \<and> snd (EnvManager_new_st [(''PORT'', NumberDecl None None)] (Some 0) None
          [\<lparr>props = [(''PORT'', Str ''80'')], prototypeOf = ObjectPrototype, frozen = False\<rparr>]) ! 0
     = \<lparr>props = [(''PORT'', Str ''80'')], prototypeOf = ObjectPrototype, frozen = False\<rparr>
   \<and> snd (EnvManager_new_st [(''PORT'', NumberDecl None None)] (Some 0) None
          [\<lparr>props = [(''PORT'', Str ''80'')], prototypeOf = ObjectPrototype, frozen = False\<rparr>])
     = [\<lparr>props = [(''PORT'', Str ''80'')], prototypeOf = ObjectPrototype, frozen = False\<rparr>,
        \<lparr>props = [(''PORT'', Num (Finite 80))], prototypeOf = ObjectPrototype, frozen = True\<rparr>]"
proof -
  let ?S1 = "[(''PORT'', NumberDecl None None), (''DEBUG'', BooleanDecl None None)]"
  let ?S2 = "[(''PORT'', NumberDecl None None)]"
  let ?H1 = "[\<lparr>props = [(''PORT'', Str ''80''), (''DEBUG'', Str ''yes'')], prototypeOf = ObjectPrototype,
       frozen = False\<rparr>]"
  let ?H2 = "[\<lparr>props = [(''PORT'', Str ''80'')], prototypeOf = ObjectPrototype, frozen = False\<rparr>]"
  have p: "EnvManager_new_st S (Some 0) None H
             = (fst (EnvManager_new_st S (Some 0) None H), snd (EnvManager_new_st S (Some 0) None H))"
    for S H
    by simp
  from source_unchanged [OF p [of ?S1 ?H1]]
  have a: "snd (EnvManager_new_st ?S1 (Some 0) None ?H1) ! 0 = ?H1 ! 0" by simp
  from source_unchanged [OF p [of ?S2 ?H2]]
  have b: "snd (EnvManager_new_st ?S2 (Some 0) None ?H2) ! 0 = ?H2 ! 0" by simp
  have c: "snd (EnvManager_new_st ?S2 (Some 0) None ?H2)
             = [\<lparr>props = [(''PORT'', Str ''80'')], prototypeOf = ObjectPrototype, frozen = False\<rparr>,
                \<lparr>props = [(''PORT'', Num (Finite 80))], prototypeOf = ObjectPrototype, frozen = True\<rparr>]"
    by code_simp
  from a b c show ?thesis by simp
qed

text \<open>
  The constructor on the store is the constructor on values: it gives the instance, or the
  error, that \<open>create\<close> gives on what reading the source object gives.
\<close>

lemma sourceAt_writeProp:
  assumes "src \<noteq> p"
  shows "sourceAt (writeProp h p k v) src = sourceAt h src"
proof -
  from assms have eq: "writeProp h p k v ! src = h ! src" by (rule writeProp_other)
  show ?thesis unfolding sourceAt_def length_writeProp eq by (rule refl)
qed

lemma sourceAt_alloc: "src < length h \<Longrightarrow> sourceAt (h @ [ob]) src = sourceAt h src"
  by (simp add: sourceAt_def nth_append)

lemma parseEnv_loop_st_refines:
  "parseEnv_loop_st this src p schema h = (r, h') \<Longrightarrow> p < length h \<Longrightarrow> src \<noteq> p \<Longrightarrow>
   \<not> frozen (h ! p) \<Longrightarrow> this_source this = sourceAt h src \<Longrightarrow>
   prototypeOf (h ! p) = ObjectPrototype \<Longrightarrow>
   (case parseEnv_loop this (props (h ! p)) schema of
      Inl e \<Rightarrow> r = Inl e
    | Inr env \<Rightarrow> r = Inr () \<and> props (h' ! p) = env)"
proof (induction schema arbitrary: h)
  case Nil
  then show ?case by simp
next
  case (Cons kd schema)
  obtain key d where kd: "kd = (key, d)" by (cases kd)
  from Cons.prems(5) have same: "this\<lparr>this_source := sourceAt h src\<rparr> = this" by simp
  show ?case
  proof (cases "parseKey this key d")
    case (Inl e)
    with Cons.prems(1) kd same show ?thesis by simp
  next
    case (Inr v)
    let ?h1 = "writeProp h p key v"
    from Cons.prems(1) kd same Inr have loop: "parseEnv_loop_st this src p schema ?h1 = (r, h')"
      by simp
    from Cons.prems have 1: "p < length ?h1" and 2: "\<not> frozen (?h1 ! p)"
      and 3: "this_source this = sourceAt ?h1 src"
      and 4: "props (?h1 ! p) = assign ObjectPrototype (props (h ! p)) key v"
      and 5: "prototypeOf (?h1 ! p) = ObjectPrototype"
      by (simp_all add: length_writeProp sourceAt_writeProp) (simp_all add: writeProp_def)
    from Cons.IH [OF loop 1 Cons.prems(3) 2 3 5] 4 kd Inr show ?thesis by simp
  qed
qed

lemma EnvManager_new_st_refines:
  assumes new: "EnvManager_new_st schema (Some src) config h = (r, h')"
    and valid: "src < length h"
  shows "map_sum id inst_fields r = create schema (Some (sourceAt h src)) config"
proof (cases "applyConfig (initial schema (sourceAt h src)) config")
  case (Inl e)
  with new show ?thesis by (auto simp: EnvManager_new_st_def create_Some)
next
  case (Inr this)
  let ?p = "length h"
  let ?h1 = "h @ [\<lparr>props = [], prototypeOf = ObjectPrototype, frozen = False\<rparr>]"
  obtain u h2 where loop: "parseEnv_loop_st this src ?p (this_schema this) ?h1 = (u, h2)"
    by (cases "parseEnv_loop_st this src ?p (this_schema this) ?h1")
  from applyConfig_source [OF Inr] valid have s: "this_source this = sourceAt ?h1 src"
    by (simp add: sourceAt_alloc)
  from valid have ne: "src \<noteq> ?p" by simp
  from parseEnv_loop_st_refines [OF loop _ ne _ s _]
  have ref: "case parseEnv this of Inl e \<Rightarrow> u = Inl e | Inr env \<Rightarrow> u = Inr () \<and> props (h2 ! ?p) = env"
    by (simp add: parseEnv_def)
  from parseEnv_loop_st_frame [OF loop] have len: "?p < length h2" by simp
  show ?thesis
  proof (cases "parseEnv this")
    case (Inl e)
    with ref loop new Inr show ?thesis
      by (auto simp: EnvManager_new_st_def parseEnv_st_def alloc_def create_Some)
  next
    case (Inr env)
    with ref have u: "u = Inr ()" and env: "props (h2 ! ?p) = env" by simp_all
    from len env have "props (freeze h2 ?p ! ?p) = env" by (simp add: freeze_def)
    with u loop new Inr \<open>applyConfig (initial schema (sourceAt h src)) config = Inr this\<close>
    show ?thesis
      by (auto simp: EnvManager_new_st_def parseEnv_st_def alloc_def create_Some)
  qed
qed

end
